theory Spec2Isabelle
  imports Complex_Main
begin

section \<open>JavaScript numbers\<close>

text \<open>
  The engine computes with JavaScript numbers. They are modelled as exact reals together
  with the three special values of IEEE arithmetic: the two infinities and NaN. Rounding
  is not modelled (every finite operation is exact), and there is one zero: the sign of a
  zero is not tracked. The only place of the program where that sign could be seen is the
  sign of an infinity produced by a division by zero, and every such quotient of the
  program is passed to \<open>Math.abs\<close> before it is used.
\<close>

datatype jsnum = Fin real | PInf | NInf | NaN

fun js_neg :: "jsnum \<Rightarrow> jsnum" where
  "js_neg (Fin x) = Fin (- x)"
| "js_neg PInf = NInf"
| "js_neg NInf = PInf"
| "js_neg NaN = NaN"

fun js_add :: "jsnum \<Rightarrow> jsnum \<Rightarrow> jsnum" where
  "js_add NaN y = NaN"
| "js_add x NaN = NaN"
| "js_add (Fin x) (Fin y) = Fin (x + y)"
| "js_add PInf NInf = NaN"
| "js_add NInf PInf = NaN"
| "js_add PInf y = PInf"
| "js_add NInf y = NInf"
| "js_add (Fin x) y = y"

definition js_sub :: "jsnum \<Rightarrow> jsnum \<Rightarrow> jsnum" where
  "js_sub x y = js_add x (js_neg y)"

text \<open>The sign of a number that is not NaN: \<open>1\<close>, \<open>0\<close> or \<open>-1\<close>.\<close>

fun js_sign :: "jsnum \<Rightarrow> real" where
  "js_sign (Fin x) = sgn x"
| "js_sign PInf = 1"
| "js_sign NInf = - 1"
| "js_sign NaN = 0"

definition signed_inf :: "real \<Rightarrow> jsnum" where
  "signed_inf s = (if s = 0 then NaN else if 0 < s then PInf else NInf)"

fun js_mul :: "jsnum \<Rightarrow> jsnum \<Rightarrow> jsnum" where
  "js_mul NaN y = NaN"
| "js_mul x NaN = NaN"
| "js_mul (Fin x) (Fin y) = Fin (x * y)"
| "js_mul x y = signed_inf (js_sign x * js_sign y)"

fun js_div :: "jsnum \<Rightarrow> jsnum \<Rightarrow> jsnum" where
  "js_div NaN y = NaN"
| "js_div x NaN = NaN"
| "js_div (Fin x) (Fin y) = (if y = 0 then signed_inf (sgn x) else Fin (x / y))"
| "js_div (Fin x) y = Fin 0"
| "js_div x (Fin y) = (if y < 0 then js_neg x else x)"
| "js_div x y = NaN"

text \<open>
  The remainder operator \<open>%\<close>: the result has the sign of the dividend, the quotient is
  truncated towards zero.
\<close>

definition trunc :: "real \<Rightarrow> int" where
  "trunc r = (if 0 \<le> r then \<lfloor>r\<rfloor> else \<lceil>r\<rceil>)"

definition fmod :: "real \<Rightarrow> real \<Rightarrow> real" where
  "fmod x y = x - y * of_int (trunc (x / y))"

fun js_mod :: "jsnum \<Rightarrow> jsnum \<Rightarrow> jsnum" where
  "js_mod (Fin x) (Fin y) = (if y = 0 then NaN else Fin (fmod x y))"
| "js_mod (Fin x) PInf = Fin x"
| "js_mod (Fin x) NInf = Fin x"
| "js_mod x y = NaN"

fun js_abs :: "jsnum \<Rightarrow> jsnum" where
  "js_abs (Fin x) = Fin \<bar>x\<bar>"
| "js_abs PInf = PInf"
| "js_abs NInf = PInf"
| "js_abs NaN = NaN"

fun js_floor :: "jsnum \<Rightarrow> jsnum" where
  "js_floor (Fin x) = Fin (of_int \<lfloor>x\<rfloor>)"
| "js_floor x = x"

text \<open>The comparisons \<open>x > y\<close> and \<open>x >= y\<close>: false as soon as one side is NaN.\<close>

fun js_gt :: "jsnum \<Rightarrow> jsnum \<Rightarrow> bool" where
  "js_gt NaN y = False"
| "js_gt x NaN = False"
| "js_gt (Fin x) (Fin y) = (y < x)"
| "js_gt PInf PInf = False"
| "js_gt PInf y = True"
| "js_gt x NInf = (x \<noteq> NInf)"
| "js_gt x y = False"

fun js_ge :: "jsnum \<Rightarrow> jsnum \<Rightarrow> bool" where
  "js_ge NaN y = False"
| "js_ge x NaN = False"
| "js_ge x y = (x = y \<or> js_gt x y)"

text \<open>A number is falsy (for \<open>!x\<close> and \<open>x || d\<close>) when it is zero or NaN.\<close>

fun js_falsy :: "jsnum \<Rightarrow> bool" where
  "js_falsy (Fin x) = (x = 0)"
| "js_falsy NaN = True"
| "js_falsy x = False"

definition js_or :: "jsnum \<Rightarrow> jsnum \<Rightarrow> jsnum" where
  "js_or x d = (if js_falsy x then d else x)"

subsection \<open>The functions of \<open>Math\<close>\<close>

definition Math_PI :: jsnum where
  "Math_PI = Fin pi"

fun Math_sin :: "jsnum \<Rightarrow> jsnum" where
  "Math_sin (Fin x) = Fin (sin x)"
| "Math_sin x = NaN"

fun Math_cos :: "jsnum \<Rightarrow> jsnum" where
  "Math_cos (Fin x) = Fin (cos x)"
| "Math_cos x = NaN"

text \<open>At a pole of the tangent the model answers with an infinity (its sign untracked).\<close>

fun Math_tan :: "jsnum \<Rightarrow> jsnum" where
  "Math_tan (Fin x) = (if cos x = 0 then PInf else Fin (tan x))"
| "Math_tan x = NaN"

fun Math_asin :: "jsnum \<Rightarrow> jsnum" where
  "Math_asin (Fin x) = (if \<bar>x\<bar> \<le> 1 then Fin (arcsin x) else NaN)"
| "Math_asin x = NaN"

fun Math_acos :: "jsnum \<Rightarrow> jsnum" where
  "Math_acos (Fin x) = (if \<bar>x\<bar> \<le> 1 then Fin (arccos x) else NaN)"
| "Math_acos x = NaN"

fun Math_atan :: "jsnum \<Rightarrow> jsnum" where
  "Math_atan (Fin x) = Fin (arctan x)"
| "Math_atan PInf = Fin (pi / 2)"
| "Math_atan NInf = Fin (- (pi / 2))"
| "Math_atan NaN = NaN"

text \<open>\<open>Math.atan2(y, x)\<close>: the angle of the point \<open>(x, y)\<close>, in \<open>[-pi, pi]\<close>.\<close>

definition atan2 :: "real \<Rightarrow> real \<Rightarrow> real" where
  "atan2 y x =
     (if 0 < x then arctan (y / x)
      else if x < 0 then (if 0 \<le> y then arctan (y / x) + pi else arctan (y / x) - pi)
      else if 0 < y then pi / 2
      else if y < 0 then - (pi / 2)
      else 0)"

fun Math_atan2 :: "jsnum \<Rightarrow> jsnum \<Rightarrow> jsnum" where
  "Math_atan2 NaN x = NaN"
| "Math_atan2 y NaN = NaN"
| "Math_atan2 (Fin y) (Fin x) = Fin (atan2 y x)"
| "Math_atan2 PInf (Fin x) = Fin (pi / 2)"
| "Math_atan2 NInf (Fin x) = Fin (- (pi / 2))"
| "Math_atan2 PInf PInf = Fin (pi / 4)"
| "Math_atan2 PInf NInf = Fin (3 * pi / 4)"
| "Math_atan2 NInf PInf = Fin (- (pi / 4))"
| "Math_atan2 NInf NInf = Fin (- (3 * pi / 4))"
| "Math_atan2 (Fin y) PInf = Fin 0"
| "Math_atan2 (Fin y) NInf = (if 0 \<le> y then Fin pi else Fin (- pi))"

section \<open>Errors and dates\<close>

datatype error = TypeError | RangeError

text \<open>
  The \<open>date\<close> argument is whatever the caller passes. A \<open>Date\<close> object that holds a
  time value answers the three UTC getters with integers (the month as an index from 0);
  an invalid \<open>Date\<close> answers each of them with NaN; on any other value the call of the
  getter throws a \<open>TypeError\<close>.
\<close>

datatype jsdate = DateUTC int int int | InvalidDate | NotADate

fun getUTCFullYear :: "jsdate \<Rightarrow> error + jsnum" where
  "getUTCFullYear (DateUTC y m d) = Inr (Fin (of_int y))"
| "getUTCFullYear InvalidDate = Inr NaN"
| "getUTCFullYear NotADate = Inl TypeError"

fun getUTCMonth :: "jsdate \<Rightarrow> error + jsnum" where
  "getUTCMonth (DateUTC y m d) = Inr (Fin (of_int m))"
| "getUTCMonth InvalidDate = Inr NaN"
| "getUTCMonth NotADate = Inl TypeError"

fun getUTCDate :: "jsdate \<Rightarrow> error + jsnum" where
  "getUTCDate (DateUTC y m d) = Inr (Fin (of_int d))"
| "getUTCDate InvalidDate = Inr NaN"
| "getUTCDate NotADate = Inl TypeError"

definition bind :: "error + 'a \<Rightarrow> ('a \<Rightarrow> error + 'b) \<Rightarrow> error + 'b" where
  "bind r f = (case r of Inl e \<Rightarrow> Inl e | Inr v \<Rightarrow> f v)"

section \<open>Julian date\<close>

text \<open>\<open>PrayerTimesCalculator.getJulianDate\<close>.\<close>

definition getJulianDate :: "jsdate \<Rightarrow> error + jsnum" where
  "getJulianDate date =
     bind (getUTCFullYear date) (\<lambda>year.
     bind (getUTCMonth date) (\<lambda>month0.
     bind (getUTCDate date) (\<lambda>day.
       let month = js_add month0 (Fin 1);
           a = js_floor (js_div (js_sub (Fin 14) month) (Fin 12));
           y = js_sub (js_add year (Fin 4800)) a;
           m = js_sub (js_add month (js_mul (Fin 12) a)) (Fin 3)
       in Inr (js_sub
            (js_add
              (js_sub
                (js_add
                  (js_add
                    (js_add day
                      (js_floor (js_div (js_add (js_mul (Fin 153) m) (Fin 2)) (Fin 5))))
                    (js_mul (Fin 365) y))
                  (js_floor (js_div y (Fin 4))))
                (js_floor (js_div y (Fin 100))))
              (js_floor (js_div y (Fin 400))))
            (Fin 32045)))))"

text \<open>\<open>getJulianDate\<close> of the application class in \<open>app.js\<close>, used for the Hijri date.\<close>

definition app_getJulianDate :: "jsdate \<Rightarrow> error + jsnum" where
  "app_getJulianDate date =
     bind (getUTCFullYear date) (\<lambda>year.
     bind (getUTCMonth date) (\<lambda>month0.
     bind (getUTCDate date) (\<lambda>day.
       let month = js_add month0 (Fin 1);
           a = js_floor (js_div (js_sub (Fin 14) month) (Fin 12));
           y = js_sub (js_add year (Fin 4800)) a;
           m = js_sub (js_add month (js_mul (Fin 12) a)) (Fin 3)
       in Inr (js_sub
            (js_add
              (js_sub
                (js_add
                  (js_add
                    (js_add day
                      (js_floor (js_div (js_add (js_mul (Fin 153) m) (Fin 2)) (Fin 5))))
                    (js_mul (Fin 365) y))
                  (js_floor (js_div y (Fin 4))))
                (js_floor (js_div y (Fin 100))))
              (js_floor (js_div y (Fin 400))))
            (Fin 32045.5)))))"

text \<open>
  The Julian Day Number as the specification writes it, on integers, with \<open>div\<close> the
  floor division.
\<close>

definition jdn_spec :: "int \<Rightarrow> int \<Rightarrow> int \<Rightarrow> int" where
  "jdn_spec year month day =
     (let a = (14 - month) div 12;
          y = year + 4800 - a;
          m = month + 12 * a - 3
      in day + (153 * m + 2) div 5 + 365 * y + y div 4 - y div 100 + y div 400 - 32045)"

section \<open>The host: clock and time zones\<close>

text \<open>
  \<open>getTimezoneOffset\<close> reads the clock (\<open>new Date()\<close>) and asks the host to format that
  instant in the given time zone and in UTC and to parse the two strings back. None of
  this is code of the repository, so the host is a parameter of the model:
  \<^item> \<open>clock\<close>: the time value of \<open>new Date()\<close>, in milliseconds;
  \<^item> \<open>formatLocal tz t\<close>: what \<open>new Intl.DateTimeFormat('en-US', {timeZone: tz, hour:
    'numeric', minute: 'numeric'}).format(t)\<close> gives, or the \<open>RangeError\<close> the constructor
    throws on a time zone the host does not know;
  \<^item> \<open>formatUTC t\<close>: what \<open>t.toLocaleString('en-US', {timeZone: 'UTC'})\<close> gives;
  \<^item> \<open>parseDate s\<close>: the time value of \<open>new Date(s)\<close>, NaN when the host cannot parse \<open>s\<close>.
\<close>

record host =
  clock :: int
  formatLocal :: "string \<Rightarrow> int \<Rightarrow> error + string"
  formatUTC :: "int \<Rightarrow> string"
  parseDate :: "string \<Rightarrow> jsnum"

definition getTimezoneOffset :: "host \<Rightarrow> string \<Rightarrow> jsnum" where
  "getTimezoneOffset h timezone =
     (let date = clock h in
      case formatLocal h timezone date of
        Inl err \<Rightarrow> Fin 5.5
      | Inr formatted \<Rightarrow>
          let localTime = parseDate h formatted;
              utcTime = parseDate h (formatUTC h date)
          in js_div (js_div (js_div (js_sub localTime utcTime) (Fin 1000)) (Fin 60)) (Fin 60))"

section \<open>Solar time and declination\<close>

text \<open>\<open>x * Math.PI / 180\<close> and \<open>x * 180 / Math.PI\<close>.\<close>

definition toRadians :: "jsnum \<Rightarrow> jsnum" where
  "toRadians x = js_div (js_mul x Math_PI) (Fin 180)"

definition toDegrees :: "jsnum \<Rightarrow> jsnum" where
  "toDegrees x = js_div (js_mul x (Fin 180)) Math_PI"

definition calculateSolarTime :: "host \<Rightarrow> jsnum \<Rightarrow> jsnum \<Rightarrow> string \<Rightarrow> jsnum" where
  "calculateSolarTime h julianDate longitude timezone =
     (let D = js_sub julianDate (Fin 2451545.0);
          g = js_mod (js_add (Fin 357.529) (js_mul (Fin 0.98560028) D)) (Fin 360);
          q = js_mod (js_add (Fin 280.459) (js_mul (Fin 0.98564736) D)) (Fin 360);
          L = js_mod
                (js_add
                  (js_add q (js_mul (Fin 1.915) (Math_sin (toRadians g))))
                  (js_mul (Fin 0.020) (Math_sin (toRadians (js_mul (Fin 2) g)))))
                (Fin 360);
          e = js_sub (Fin 23.439) (js_mul (Fin 0.00000036) D);
          RA = js_div
                 (toDegrees
                   (Math_atan2
                     (js_mul (Math_cos (toRadians e)) (Math_sin (toRadians L)))
                     (Math_cos (toRadians L))))
                 (Fin 15);
          EqT = js_div (js_mul (js_sub (js_div q (Fin 15)) RA) (Fin 4)) (Fin 60);
          longitudeHour = js_div longitude (Fin 15);
          timezoneOffset = js_div (getTimezoneOffset h timezone) (Fin 60)
      in js_add (js_sub (js_add (Fin 12) EqT) longitudeHour) timezoneOffset)"

definition calculateDeclination :: "jsnum \<Rightarrow> jsnum" where
  "calculateDeclination solarTime =
     (let D = js_sub (js_mul solarTime (Fin 24)) (Fin 2451545.0);
          g = js_mod (js_add (Fin 357.529) (js_mul (Fin 0.98560028) D)) (Fin 360);
          q = js_mod (js_add (Fin 280.459) (js_mul (Fin 0.98564736) D)) (Fin 360);
          L = js_mod
                (js_add
                  (js_add q (js_mul (Fin 1.915) (Math_sin (toRadians g))))
                  (js_mul (Fin 0.020) (Math_sin (toRadians (js_mul (Fin 2) g)))))
                (Fin 360);
          e = js_sub (Fin 23.439) (js_mul (Fin 0.00000036) D)
      in toDegrees
           (Math_asin (js_mul (Math_sin (toRadians e)) (Math_sin (toRadians L)))))"

section \<open>The six solvers\<close>

text \<open>
  Each solver first computes its local \<open>cosAngle\<close>, the cosine of the hour angle; that
  value has a definition of its own here, so that the branch a solver takes can be named.
\<close>

definition fajr_cosAngle :: "jsnum \<Rightarrow> jsnum \<Rightarrow> jsnum \<Rightarrow> jsnum" where
  "fajr_cosAngle solarTime latitude fajrAngle =
     (let declination = calculateDeclination solarTime
      in js_div (js_neg (Math_sin (toRadians fajrAngle)))
           (js_mul (Math_cos (toRadians latitude)) (Math_cos declination)))"

definition calculateFajr :: "jsnum \<Rightarrow> jsnum \<Rightarrow> jsnum \<Rightarrow> jsnum" where
  "calculateFajr solarTime latitude fajrAngle =
     (let cosAngle = fajr_cosAngle solarTime latitude fajrAngle
      in if js_gt (js_abs cosAngle) (Fin 1) then js_sub solarTime (Fin 1.5)
         else let hourAngle = toDegrees (Math_acos cosAngle)
              in js_sub solarTime (js_div hourAngle (Fin 15)))"

definition sunrise_cosAngle :: "jsnum \<Rightarrow> jsnum \<Rightarrow> jsnum" where
  "sunrise_cosAngle solarTime latitude =
     (let declination = calculateDeclination solarTime
      in js_div (js_neg (Math_sin (toRadians (Fin 0))))
           (js_mul (Math_cos (toRadians latitude)) (Math_cos declination)))"

definition calculateSunrise :: "jsnum \<Rightarrow> jsnum \<Rightarrow> jsnum" where
  "calculateSunrise solarTime latitude =
     (let cosAngle = sunrise_cosAngle solarTime latitude
      in if js_gt (js_abs cosAngle) (Fin 1) then solarTime
         else let hourAngle = toDegrees (Math_acos cosAngle)
              in js_sub solarTime (js_div hourAngle (Fin 15)))"

definition calculateDhuhr :: "jsnum \<Rightarrow> jsnum" where
  "calculateDhuhr solarTime = solarTime"

definition asr_cosAngle :: "jsnum \<Rightarrow> jsnum \<Rightarrow> jsnum \<Rightarrow> jsnum" where
  "asr_cosAngle solarTime latitude asrFactor =
     (let declination = calculateDeclination solarTime;
          tanAngle = js_abs (Math_tan (toRadians (js_sub latitude (toDegrees declination))));
          shadowAngle = Math_atan (js_div (Fin 1) (js_add asrFactor tanAngle))
      in js_div
           (js_sub (Math_sin shadowAngle)
             (js_mul (Math_sin (toRadians latitude)) (Math_sin declination)))
           (js_mul (Math_cos (toRadians latitude)) (Math_cos declination)))"

definition calculateAsr :: "jsnum \<Rightarrow> jsnum \<Rightarrow> jsnum \<Rightarrow> jsnum" where
  "calculateAsr solarTime latitude asrFactor =
     (let cosAngle = asr_cosAngle solarTime latitude asrFactor
      in if js_gt (js_abs cosAngle) (Fin 1) then js_add solarTime (Fin 2)
         else let hourAngle = toDegrees (Math_acos cosAngle)
              in js_add solarTime (js_div hourAngle (Fin 15)))"

definition maghrib_cosAngle :: "jsnum \<Rightarrow> jsnum \<Rightarrow> jsnum" where
  "maghrib_cosAngle solarTime latitude =
     (let declination = calculateDeclination solarTime
      in js_div (js_neg (Math_sin (toRadians (Fin 0))))
           (js_mul (Math_cos (toRadians latitude)) (Math_cos declination)))"

definition calculateMaghrib :: "jsnum \<Rightarrow> jsnum \<Rightarrow> jsnum" where
  "calculateMaghrib solarTime latitude =
     (let cosAngle = maghrib_cosAngle solarTime latitude
      in if js_gt (js_abs cosAngle) (Fin 1) then solarTime
         else let hourAngle = toDegrees (Math_acos cosAngle)
              in js_add solarTime (js_div hourAngle (Fin 15)))"

definition isha_cosAngle :: "jsnum \<Rightarrow> jsnum \<Rightarrow> jsnum \<Rightarrow> jsnum" where
  "isha_cosAngle solarTime latitude ishaAngle =
     (let declination = calculateDeclination solarTime
      in js_div (js_neg (Math_sin (toRadians ishaAngle)))
           (js_mul (Math_cos (toRadians latitude)) (Math_cos declination)))"

definition calculateIsha :: "jsnum \<Rightarrow> jsnum \<Rightarrow> jsnum \<Rightarrow> jsnum" where
  "calculateIsha solarTime latitude ishaAngle =
     (let cosAngle = isha_cosAngle solarTime latitude ishaAngle
      in if js_gt (js_abs cosAngle) (Fin 1) then js_add solarTime (Fin 1.5)
         else let hourAngle = toDegrees (Math_acos cosAngle)
              in js_add solarTime (js_div hourAngle (Fin 15)))"

section \<open>Orchestration\<close>

record method_params =
  p_fajrAngle :: jsnum
  p_ishaAngle :: jsnum

definition methodParams :: "string \<rightharpoonup> method_params" where
  "methodParams = map_of
     [(''MWL'', \<lparr>p_fajrAngle = Fin 18, p_ishaAngle = Fin 17\<rparr>),
      (''ISNA'', \<lparr>p_fajrAngle = Fin 15, p_ishaAngle = Fin 15\<rparr>),
      (''Egypt'', \<lparr>p_fajrAngle = Fin 19.5, p_ishaAngle = Fin 17.5\<rparr>),
      (''Makkah'', \<lparr>p_fajrAngle = Fin 18.5, p_ishaAngle = Fin 90\<rparr>),
      (''Karachi'', \<lparr>p_fajrAngle = Fin 18, p_ishaAngle = Fin 18\<rparr>),
      (''Tehran'', \<lparr>p_fajrAngle = Fin 17.7, p_ishaAngle = Fin 14\<rparr>)]"

text \<open>
  \<open>this.methodParams[method]?.fajrAngle || 18\<close>: a name that is not in the table gives
  \<open>undefined\<close>, which is falsy, and so does a falsy entry.
\<close>

definition fajrAngleOf :: "string \<Rightarrow> jsnum" where
  "fajrAngleOf method =
     (case methodParams method of None \<Rightarrow> Fin 18 | Some p \<Rightarrow> js_or (p_fajrAngle p) (Fin 18))"

definition ishaAngleOf :: "string \<Rightarrow> jsnum" where
  "ishaAngleOf method =
     (case methodParams method of None \<Rightarrow> Fin 18 | Some p \<Rightarrow> js_or (p_ishaAngle p) (Fin 18))"

record prayer_times =
  fajr :: jsnum
  sunrise :: jsnum
  dhuhr :: jsnum
  asr :: jsnum
  maghrib :: jsnum
  isha :: jsnum

text \<open>\<open>(x % 24 + 24) % 24\<close>, applied to each of the six entries.\<close>

definition normalize :: "jsnum \<Rightarrow> jsnum" where
  "normalize x = js_mod (js_add (js_mod x (Fin 24)) (Fin 24)) (Fin 24)"

definition normalizeTimes :: "prayer_times \<Rightarrow> prayer_times" where
  "normalizeTimes t =
     \<lparr>fajr = normalize (fajr t), sunrise = normalize (sunrise t), dhuhr = normalize (dhuhr t),
      asr = normalize (asr t), maghrib = normalize (maghrib t), isha = normalize (isha t)\<rparr>"

text \<open>The six solver calls of \<open>calculatePrayerTimes\<close>, before the normalization.\<close>

definition solverTimes :: "jsnum \<Rightarrow> jsnum \<Rightarrow> jsnum \<Rightarrow> jsnum \<Rightarrow> jsnum \<Rightarrow> prayer_times" where
  "solverTimes localTime latitude fajrAngle ishaAngle asrFactor =
     \<lparr>fajr = calculateFajr localTime latitude fajrAngle,
      sunrise = calculateSunrise localTime latitude,
      dhuhr = calculateDhuhr localTime,
      asr = calculateAsr localTime latitude asrFactor,
      maghrib = calculateMaghrib localTime latitude,
      isha = calculateIsha localTime latitude ishaAngle\<rparr>"

definition zeroTimes :: prayer_times where
  "zeroTimes = \<lparr>fajr = Fin 0, sunrise = Fin 0, dhuhr = Fin 0, asr = Fin 0, maghrib = Fin 0,
     isha = Fin 0\<rparr>"

text \<open>
  The body of the \<open>try\<close> block. The arguments \<open>method\<close> and \<open>madhab\<close> are optional: an
  omitted one takes its default, \<open>'Karachi'\<close> and \<open>'Hanafi'\<close>.
\<close>

definition calculatePrayerTimes_try ::
  "host \<Rightarrow> jsdate \<Rightarrow> jsnum \<Rightarrow> jsnum \<Rightarrow> string \<Rightarrow> string option \<Rightarrow> string option
     \<Rightarrow> error + prayer_times" where
  "calculatePrayerTimes_try h date latitude longitude timezone method_arg madhab_arg =
     (let method = (case method_arg of None \<Rightarrow> ''Karachi'' | Some s \<Rightarrow> s);
          madhab = (case madhab_arg of None \<Rightarrow> ''Hanafi'' | Some s \<Rightarrow> s)
      in bind (getJulianDate date) (\<lambda>julianDate.
           let localTime = calculateSolarTime h julianDate longitude timezone;
               fajrAngle = fajrAngleOf method;
               ishaAngle = ishaAngleOf method;
               asrFactor = (if madhab = ''Hanafi'' then Fin 2 else Fin 1)
           in Inr (normalizeTimes
                     (solverTimes localTime latitude fajrAngle ishaAngle asrFactor))))"

text \<open>\<open>calculatePrayerTimes\<close>: the \<open>catch\<close> clause turns every exception into the zero record.\<close>

definition calculatePrayerTimes ::
  "host \<Rightarrow> jsdate \<Rightarrow> jsnum \<Rightarrow> jsnum \<Rightarrow> string \<Rightarrow> string option \<Rightarrow> string option
     \<Rightarrow> prayer_times" where
  "calculatePrayerTimes h date latitude longitude timezone method_arg madhab_arg =
     (case calculatePrayerTimes_try h date latitude longitude timezone method_arg madhab_arg of
        Inl err \<Rightarrow> zeroTimes
      | Inr result \<Rightarrow> result)"

section \<open>Formatting and parsing of clock times\<close>

text \<open>
  Strings are lists of code units below 256. The decimal rendering of a number is needed
  only for the results of \<open>Math.floor\<close>: integers, an infinity or NaN. (Integers of 22
  digits and more, which JavaScript prints with an exponent, are outside the model.)
\<close>

definition digitChar :: "nat \<Rightarrow> char" where
  "digitChar d = char_of (48 + d)"

fun natToString :: "nat \<Rightarrow> string" where
  "natToString n = (if n < 10 then [digitChar n] else natToString (n div 10) @ [digitChar (n mod 10)])"

definition intToString :: "int \<Rightarrow> string" where
  "intToString i = (if i < 0 then CHR ''-'' # natToString (nat (- i)) else natToString (nat i))"

fun numToString :: "jsnum \<Rightarrow> string" where
  "numToString (Fin x) = intToString \<lfloor>x\<rfloor>"
| "numToString PInf = ''Infinity''"
| "numToString NInf = ''-Infinity''"
| "numToString NaN = ''NaN''"

text \<open>\<open>s.padStart(2, '0')\<close>.\<close>

definition padStart2 :: "string \<Rightarrow> string" where
  "padStart2 s = replicate (2 - length s) CHR ''0'' @ s"

text \<open>\<open>PrayerTimesCalculator.formatTime\<close>.\<close>

definition formatTime :: "jsnum \<Rightarrow> string" where
  "formatTime decimalTime =
     (if js_falsy decimalTime then ''Error''
      else let hours = js_floor decimalTime;
               minutes = js_floor (js_mul (js_sub decimalTime hours) (Fin 60));
               period = (if js_ge hours (Fin 12) then ''PM'' else ''AM'');
               displayHours = js_or (js_mod hours (Fin 12)) (Fin 12)
           in numToString displayHours @ '':'' @ padStart2 (numToString minutes) @ '' '' @ period)"

text \<open>
  The two regular expressions of \<open>convertTimeToDecimal\<close> share the prefix
  \<open>^(\d{1,2}):(\d{2})\<close>. \<open>matchHourMinute\<close> matches it and gives the two groups as numbers
  and the rest of the string.
\<close>

definition isDigit :: "char \<Rightarrow> bool" where
  "isDigit c = ((48::nat) \<le> of_char c \<and> of_char c \<le> (57::nat))"

definition digitVal :: "char \<Rightarrow> nat" where
  "digitVal c = of_char c - (48::nat)"

fun matchHourMinute :: "string \<Rightarrow> (nat \<times> nat \<times> string) option" where
  "matchHourMinute (a # b # c # d # e # rest) =
     (if isDigit a \<and> isDigit b \<and> c = CHR '':'' \<and> isDigit d \<and> isDigit e
        then Some (10 * digitVal a + digitVal b, 10 * digitVal d + digitVal e, rest)
      else if isDigit a \<and> b = CHR '':'' \<and> isDigit c \<and> isDigit d
        then Some (digitVal a, 10 * digitVal c + digitVal d, e # rest)
      else None)"
| "matchHourMinute [a, b, c, d] =
     (if isDigit a \<and> b = CHR '':'' \<and> isDigit c \<and> isDigit d
        then Some (digitVal a, 10 * digitVal c + digitVal d, [])
      else None)"
| "matchHourMinute s = None"

text \<open>The white space of \<open>\s\<close> among the code units below 256.\<close>

definition isSpace :: "char \<Rightarrow> bool" where
  "isSpace c = (of_char c \<in> {9, 10, 11, 12, 13, 32, 160 :: nat})"

text \<open>\<open>(AM|PM)$\<close> under the flag \<open>i\<close>; the result is the group in upper case.\<close>

fun matchPeriod :: "string \<Rightarrow> string option" where
  "matchPeriod [a, m] =
     (if (m = CHR ''M'' \<or> m = CHR ''m'') \<and> (a = CHR ''A'' \<or> a = CHR ''a'') then Some ''AM''
      else if (m = CHR ''M'' \<or> m = CHR ''m'') \<and> (a = CHR ''P'' \<or> a = CHR ''p'') then Some ''PM''
      else None)"
| "matchPeriod s = None"

text \<open>\<open>\s?(AM|PM)$\<close>.\<close>

definition matchSpacePeriod :: "string \<Rightarrow> string option" where
  "matchSpacePeriod s =
     (case s of
        [] \<Rightarrow> None
      | c # cs \<Rightarrow> (if isSpace c \<and> matchPeriod cs \<noteq> None then matchPeriod cs else matchPeriod s))"

text \<open>\<open>convertTimeToDecimal\<close> of \<open>app.js\<close>, on a string argument.\<close>

definition convertTimeToDecimal :: "string \<Rightarrow> jsnum" where
  "convertTimeToDecimal timeStr =
     (if timeStr = [] then Fin 0
      else case matchHourMinute timeStr of
        None \<Rightarrow> Fin 0
      | Some (h, mi, rest) \<Rightarrow>
          if rest = [] then js_add (Fin (of_nat h)) (js_div (Fin (of_nat mi)) (Fin 60))
          else (case matchSpacePeriod rest of
                  None \<Rightarrow> Fin 0
                | Some period \<Rightarrow>
                    let hours = Fin (of_nat h);
                        minutes = Fin (of_nat mi);
                        hours = (if period = ''PM'' \<and> hours \<noteq> Fin 12
                                 then js_add hours (Fin 12) else hours);
                        hours = (if period = ''AM'' \<and> hours = Fin 12 then Fin 0 else hours)
                    in js_add hours (js_div minutes (Fin 60))))"

section \<open>Auxiliary definitions for the proofs\<close>


text \<open>
  The declination that \<open>calculateDeclination\<close> computes at a finite solar time, as a real
  number, and the denominator \<open>cos(lat) * cos(declination)\<close> of the hour-angle equations
  as the solvers compute it (they pass the declination to the cosine as it is).
\<close>

definition declReal :: "real \<Rightarrow> real" where
  "declReal s =
     (let D = s * 24 - 2451545.0;
          g = fmod (357.529 + 0.98560028 * D) 360;
          q = fmod (280.459 + 0.98564736 * D) 360;
          L = fmod (q + 1.915 * sin (g * pi / 180) + 0.020 * sin (2 * g * pi / 180)) 360;
          e = 23.439 - 0.00000036 * D
      in arcsin (sin (e * pi / 180) * sin (L * pi / 180)) * 180 / pi)"

definition cosProd :: "real \<Rightarrow> real \<Rightarrow> real" where
  "cosProd s lat = cos (lat * pi / 180) * cos (declReal s)"

text \<open>
  A sample engine for the closed examples. It prints the \<open>en-US\<close> strings of the engines:
  \<open>h:mm AM\<close> for the formatter with hour and minute, \<open>M/D/YYYY, h:mm:ss AM\<close> for
  \<open>toLocaleString\<close> (with an ordinary space before the day period). It knows the zones
  \<open>UTC\<close>, \<open>Asia/Kolkata\<close> and \<open>Asia/Riyadh\<close>, which have fixed offsets, and rejects every
  other name. Its own zone is UTC, and its \<open>Date\<close> constructor parses the strings of the
  second form and no string that holds only a time of day.
\<close>

definition hour12 :: "int \<Rightarrow> string" where
  "hour12 h = intToString (if h mod 12 = 0 then 12 else h mod 12)"

definition dayPeriod :: "int \<Rightarrow> string" where
  "dayPeriod h = (if h < 12 then ''AM'' else ''PM'')"

definition hourMinuteString :: "int \<Rightarrow> string" where
  "hourMinuteString t =
     (let m = (t div 60000) mod 1440
      in hour12 (m div 60) @ '':'' @ padStart2 (intToString (m mod 60)) @ '' '' @
         dayPeriod (m div 60))"

text \<open>The civil date of a day number counted from 1 January 1970, and back.\<close>

definition civilFromDays :: "int \<Rightarrow> int \<times> int \<times> int" where
  "civilFromDays days =
     (let z = days + 719468;
          era = z div 146097;
          doe = z mod 146097;
          yoe = (doe - doe div 1460 + doe div 36524 - doe div 146096) div 365;
          doy = doe - (365 * yoe + yoe div 4 - yoe div 100);
          mp = (5 * doy + 2) div 153;
          d = doy - (153 * mp + 2) div 5 + 1;
          m = (if mp < 10 then mp + 3 else mp - 9);
          y = yoe + era * 400
      in (if m \<le> 2 then y + 1 else y, m, d))"

definition daysFromCivil :: "int \<Rightarrow> int \<Rightarrow> int \<Rightarrow> int" where
  "daysFromCivil y m d =
     (let y' = (if m \<le> 2 then y - 1 else y);
          era = y' div 400;
          yoe = y' mod 400;
          mp = (if 2 < m then m - 3 else m + 9);
          doy = (153 * mp + 2) div 5 + d - 1;
          doe = yoe * 365 + yoe div 4 - yoe div 100 + doy
      in era * 146097 + doe - 719468)"

definition dateTimeString :: "int \<Rightarrow> string" where
  "dateTimeString t =
     (case civilFromDays (t div 86400000) of (y, m, d) \<Rightarrow>
        let s = (t div 1000) mod 86400;
            h = s div 3600
        in intToString m @ ''/'' @ intToString d @ ''/'' @ intToString y @ '', '' @
           hour12 h @ '':'' @ padStart2 (intToString ((s div 60) mod 60)) @ '':'' @
           padStart2 (intToString (s mod 60)) @ '' '' @ dayPeriod h)"

definition readNat :: "string \<Rightarrow> (int \<times> string) option" where
  "readNat s =
     (let ds = takeWhile isDigit s
      in if ds = [] then None
         else Some (foldl (\<lambda>a c. 10 * a + int (digitVal c)) 0 ds, dropWhile isDigit s))"

definition expect :: "char \<Rightarrow> string \<Rightarrow> string option" where
  "expect c s = (case s of [] \<Rightarrow> None | x # xs \<Rightarrow> if x = c then Some xs else None)"

definition parseDateTime :: "string \<Rightarrow> int option" where
  "parseDateTime s0 =
     Option.bind (readNat s0) (\<lambda>(mo, s1).
     Option.bind (expect CHR ''/'' s1) (\<lambda>s2.
     Option.bind (readNat s2) (\<lambda>(d, s3).
     Option.bind (expect CHR ''/'' s3) (\<lambda>s4.
     Option.bind (readNat s4) (\<lambda>(y, s5).
     Option.bind (expect CHR '','' s5) (\<lambda>s6.
     Option.bind (expect CHR '' '' s6) (\<lambda>s7.
     Option.bind (readNat s7) (\<lambda>(h, s8).
     Option.bind (expect CHR '':'' s8) (\<lambda>s9.
     Option.bind (readNat s9) (\<lambda>(mi, s10).
     Option.bind (expect CHR '':'' s10) (\<lambda>s11.
     Option.bind (readNat s11) (\<lambda>(se, s12).
     Option.bind (expect CHR '' '' s12) (\<lambda>period.
       if (period = ''AM'' \<or> period = ''PM'') \<and> 1 \<le> mo \<and> mo \<le> 12 \<and> 1 \<le> d \<and> d \<le> 31 \<and>
          1 \<le> h \<and> h \<le> 12 \<and> mi < 60 \<and> se < 60
       then Some ((((daysFromCivil y mo d * 24 +
                     (if period = ''PM'' then h mod 12 + 12 else h mod 12)) * 60 + mi) * 60 + se)
                   * 1000)
       else None)))))))))))))"

definition engineParse :: "string \<Rightarrow> jsnum" where
  "engineParse s = (case parseDateTime s of None \<Rightarrow> NaN | Some ms \<Rightarrow> Fin (of_int ms))"

definition zoneOffsetMinutes :: "string \<rightharpoonup> int" where
  "zoneOffsetMinutes = map_of [(''UTC'', 0), (''Asia/Kolkata'', 330), (''Asia/Riyadh'', 180)]"

definition sampleEngine :: host where
  "sampleEngine =
     \<lparr>clock = 0,
      formatLocal = (\<lambda>tz d. case zoneOffsetMinutes tz of
                              None \<Rightarrow> Inl RangeError
                            | Some off \<Rightarrow> Inr (hourMinuteString (d + off * 60000))),
      formatUTC = dateTimeString,
      parseDate = engineParse\<rparr>"

text \<open>The six values in strictly increasing order, compared as JavaScript compares numbers.\<close>

definition strictlyIncreasing :: "prayer_times \<Rightarrow> bool" where
  "strictlyIncreasing t =
     (js_gt (sunrise t) (fajr t) \<and> js_gt (dhuhr t) (sunrise t) \<and> js_gt (asr t) (dhuhr t) \<and>
      js_gt (maghrib t) (asr t) \<and> js_gt (isha t) (maghrib t))"

text \<open>
  The Fajr solver as the specification words it: every angle in degrees, the declination
  among them, is converted to radians before the trigonometric call.
\<close>

definition calculateFajr_spec :: "jsnum \<Rightarrow> jsnum \<Rightarrow> jsnum \<Rightarrow> jsnum" where
  "calculateFajr_spec solarTime latitude fajrAngle =
     (let declination = calculateDeclination solarTime;
          cosH = js_div (js_neg (Math_sin (toRadians fajrAngle)))
                   (js_mul (Math_cos (toRadians latitude)) (Math_cos (toRadians declination)))
      in if js_gt (js_abs cosH) (Fin 1) then js_sub solarTime (Fin 1.5)
         else let H = toDegrees (Math_acos cosH)
              in js_sub solarTime (js_div H (Fin 15)))"


section \<open>Facts about the number model\<close>

lemma toRadians_Fin: "toRadians (Fin x) = Fin (x * pi / 180)"
  by (simp add: toRadians_def Math_PI_def)

lemma toDegrees_Fin: "toDegrees (Fin x) = Fin (x * 180 / pi)"
  by (simp add: toDegrees_def Math_PI_def)

lemma js_sub_Fin: "js_sub (Fin x) (Fin y) = Fin (x - y)"
  by (simp add: js_sub_def)

lemma js_add_NaN_right: "js_add x NaN = NaN"
  by (cases x) simp_all


lemma js_mul_NaN_right: "js_mul x NaN = NaN"
  by (cases x) simp_all






section \<open>Julian date\<close>

lemma floor_quot:
  "l \<noteq> 0 \<Longrightarrow> js_floor (js_div (Fin (of_int k)) (Fin (of_int l))) = Fin (of_int (k div l))"
  by (simp add: floor_divide_of_int_eq)

lemma julian_sum:
  fixes y m day :: int
  shows "js_add (js_sub (js_add (js_add (js_add (Fin (of_int day))
           (js_floor (js_div (js_add (js_mul (Fin 153) (Fin (of_int m))) (Fin 2)) (Fin 5))))
           (js_mul (Fin 365) (Fin (of_int y))))
           (js_floor (js_div (Fin (of_int y)) (Fin 4))))
           (js_floor (js_div (Fin (of_int y)) (Fin 100))))
           (js_floor (js_div (Fin (of_int y)) (Fin 400)))
         = Fin (of_int (day + (153 * m + 2) div 5 + 365 * y + y div 4 - y div 100 + y div 400))"
proof -
  have f5: "js_floor (js_div (js_add (js_mul (Fin 153) (Fin (of_int m))) (Fin 2)) (Fin 5))
              = Fin (of_int ((153 * m + 2) div 5))"
    using floor_quot[of 5 "153 * m + 2"] by simp
  have f4: "js_floor (js_div (Fin (of_int y)) (Fin 4)) = Fin (of_int (y div 4))"
    using floor_quot[of 4 y] by simp
  have f100: "js_floor (js_div (Fin (of_int y)) (Fin 100)) = Fin (of_int (y div 100))"
    using floor_quot[of 100 y] by simp
  have f400: "js_floor (js_div (Fin (of_int y)) (Fin 400)) = Fin (of_int (y div 400))"
    using floor_quot[of 400 y] by simp
  show ?thesis
    unfolding f5 f4 f100 f400 by (simp add: js_sub_def)
qed

lemma getJulianDate_DateUTC:
  "getJulianDate (DateUTC year m0 day) = Inr (Fin (of_int (jdn_spec year (m0 + 1) day)))"
proof -
  define month where "month = m0 + 1"
  define a where "a = (14 - month) div 12"
  define y where "y = year + 4800 - a"
  define m where "m = month + 12 * a - 3"
  have mo: "js_add (Fin (of_int m0)) (Fin 1) = Fin (of_int month)"
    by (simp add: month_def)
  have fa: "js_floor (js_div (js_sub (Fin 14) (Fin (of_int month))) (Fin 12)) = Fin (of_int a)"
    using floor_quot[of 12 "14 - month"] by (simp add: js_sub_def a_def)
  have fy: "js_sub (js_add (Fin (of_int year)) (Fin 4800)) (Fin (of_int a)) = Fin (of_int y)"
    by (simp add: js_sub_def y_def)
  have fm: "js_sub (js_add (Fin (of_int month)) (js_mul (Fin 12) (Fin (of_int a)))) (Fin 3)
              = Fin (of_int m)"
    by (simp add: js_sub_def m_def)
  have j: "jdn_spec year (m0 + 1) day
             = day + (153 * m + 2) div 5 + 365 * y + y div 4 - y div 100 + y div 400 - 32045"
    by (simp add: jdn_spec_def Let_def m_def y_def a_def month_def)
  show ?thesis
    unfolding getJulianDate_def bind_def Let_def
    by (simp only: getUTCFullYear.simps getUTCMonth.simps getUTCDate.simps sum.case mo fa fy fm
          julian_sum j)
       (simp add: js_sub_def)
qed

lemma app_getJulianDate_DateUTC:
  "app_getJulianDate (DateUTC year m0 day)
     = Inr (Fin (of_int (jdn_spec year (m0 + 1) day) - 1 / 2))"
proof -
  define month where "month = m0 + 1"
  define a where "a = (14 - month) div 12"
  define y where "y = year + 4800 - a"
  define m where "m = month + 12 * a - 3"
  have mo: "js_add (Fin (of_int m0)) (Fin 1) = Fin (of_int month)"
    by (simp add: month_def)
  have fa: "js_floor (js_div (js_sub (Fin 14) (Fin (of_int month))) (Fin 12)) = Fin (of_int a)"
    using floor_quot[of 12 "14 - month"] by (simp add: js_sub_def a_def)
  have fy: "js_sub (js_add (Fin (of_int year)) (Fin 4800)) (Fin (of_int a)) = Fin (of_int y)"
    by (simp add: js_sub_def y_def)
  have fm: "js_sub (js_add (Fin (of_int month)) (js_mul (Fin 12) (Fin (of_int a)))) (Fin 3)
              = Fin (of_int m)"
    by (simp add: js_sub_def m_def)
  have j: "jdn_spec year (m0 + 1) day
             = day + (153 * m + 2) div 5 + 365 * y + y div 4 - y div 100 + y div 400 - 32045"
    by (simp add: jdn_spec_def Let_def m_def y_def a_def month_def)
  show ?thesis
    unfolding app_getJulianDate_def bind_def Let_def
    by (simp only: getUTCFullYear.simps getUTCMonth.simps getUTCDate.simps sum.case mo fa fy fm
          julian_sum j)
       (simp add: js_sub_def)
qed

text \<open>
  C10 (as amended). \<open>PrayerTimesCalculator.getJulianDate\<close> returns exactly the Julian Day
  Number of the specification's formula for the UTC year, month and day of every valid
  date; \<open>getJulianDate\<close> of the application class in \<open>app.js\<close> ends in \<open>- 32045.5\<close> and
  returns that number minus one half.
\<close>

theorem julian_date_conversions:
  "getJulianDate (DateUTC year m0 day) = Inr (Fin (of_int (jdn_spec year (m0 + 1) day))) \<and>
   app_getJulianDate (DateUTC year m0 day)
     = Inr (Fin (of_int (jdn_spec year (m0 + 1) day) - 1 / 2))"
  by (simp only: getJulianDate_DateUTC app_getJulianDate_DateUTC)

text \<open>
  C10 as stated fails for the conversion of \<open>app.js\<close>: for 1 January 2000 the Julian Day
  Number is 2451545, and \<open>app.js\<close> returns 2451544.5.
\<close>

theorem app_julian_date_counterexample:
  "jdn_spec 2000 1 1 = 2451545 \<and> app_getJulianDate (DateUTC 2000 0 1) = Inr (Fin 2451544.5) \<and>
   app_getJulianDate (DateUTC 2000 0 1) \<noteq> Inr (Fin (of_int (jdn_spec 2000 1 1)))"
proof -
  have j: "jdn_spec 2000 1 1 = 2451545" by (simp add: jdn_spec_def)
  have "app_getJulianDate (DateUTC 2000 0 1) = Inr (Fin (of_int (jdn_spec 2000 (0 + 1) 1) - 1 / 2))"
    by (rule app_getJulianDate_DateUTC)
  then have a: "app_getJulianDate (DateUTC 2000 0 1) = Inr (Fin 2451544.5)"
    by (simp add: j)
  show ?thesis by (simp add: j a)
qed

section \<open>The solvers at finite arguments\<close>

lemma abs_sin_mult_le_one: "\<bar>sin a * sin (b::real)\<bar> \<le> 1"
proof -
  have "\<bar>sin a\<bar> * \<bar>sin b\<bar> \<le> 1 * 1"
    by (rule mult_mono) simp_all
  then show ?thesis by (simp add: abs_mult)
qed

lemma js_mod_360: "js_mod (Fin x) (Fin 360) = Fin (fmod x 360)"
  by simp

lemma Math_asin_sin_sin: "Math_asin (Fin (sin a * sin b)) = Fin (arcsin (sin a * sin b))"
  by (simp add: abs_sin_mult_le_one)

lemma calculateDeclination_Fin: "calculateDeclination (Fin s) = Fin (declReal s)"
  unfolding calculateDeclination_def declReal_def Let_def
  by (simp only: toRadians_Fin toDegrees_Fin js_sub_Fin js_mul.simps js_add.simps js_mod_360
      Math_sin.simps Math_asin_sin_sin)

lemma denominator_Fin:
  "js_mul (Math_cos (toRadians (Fin lat))) (Math_cos (calculateDeclination (Fin s)))
     = Fin (cosProd s lat)"
  by (simp add: toRadians_Fin calculateDeclination_Fin cosProd_def)

lemma sunrise_cosAngle_Fin:
  "cosProd s lat \<noteq> 0 \<Longrightarrow> sunrise_cosAngle (Fin s) (Fin lat) = Fin 0"
  by (simp add: sunrise_cosAngle_def Let_def calculateDeclination_Fin cosProd_def toRadians_Fin)

lemma maghrib_cosAngle_Fin:
  "cosProd s lat \<noteq> 0 \<Longrightarrow> maghrib_cosAngle (Fin s) (Fin lat) = Fin 0"
  by (simp add: maghrib_cosAngle_def Let_def calculateDeclination_Fin cosProd_def toRadians_Fin)

lemma calculateSunrise_Fin:
  "cosProd s lat \<noteq> 0 \<Longrightarrow> calculateSunrise (Fin s) (Fin lat) = Fin (s - 6)"
  by (simp add: calculateSunrise_def sunrise_cosAngle_Fin toDegrees_Fin js_sub_Fin)

lemma calculateMaghrib_Fin:
  "cosProd s lat \<noteq> 0 \<Longrightarrow> calculateMaghrib (Fin s) (Fin lat) = Fin (s + 6)"
  by (simp add: calculateMaghrib_def maghrib_cosAngle_Fin toDegrees_Fin)

lemma twilight_quot:
  "js_div (js_neg (Math_sin (toRadians (Fin a))))
      (js_mul (Math_cos (toRadians (Fin lat))) (Math_cos (calculateDeclination (Fin s))))
   = (if cosProd s lat = 0 then signed_inf (sgn (- sin (a * pi / 180)))
      else Fin (- sin (a * pi / 180) / cosProd s lat))"
  by (simp add: calculateDeclination_Fin cosProd_def toRadians_Fin)

lemma fajr_cosAngle_Fin:
  "fajr_cosAngle (Fin s) (Fin lat) (Fin a) =
     (if cosProd s lat = 0 then signed_inf (sgn (- sin (a * pi / 180)))
      else Fin (- sin (a * pi / 180) / cosProd s lat))"
  unfolding fajr_cosAngle_def Let_def by (rule twilight_quot)

lemma isha_cosAngle_Fin:
  "isha_cosAngle (Fin s) (Fin lat) (Fin a) =
     (if cosProd s lat = 0 then signed_inf (sgn (- sin (a * pi / 180)))
      else Fin (- sin (a * pi / 180) / cosProd s lat))"
  unfolding isha_cosAngle_def Let_def by (rule twilight_quot)

text \<open>The hour-angle equation has no solution when the denominator is below the sine.\<close>

lemma no_solution:
  assumes "\<bar>c\<bar> < sin x"
  shows "js_gt (js_abs (if c = 0 then signed_inf (sgn (- sin x)) else Fin (- sin x / c))) (Fin 1)"
proof (cases "c = 0")
  case True
  with assms have "0 < sin x" by simp
  then show ?thesis using True by (simp add: signed_inf_def)
next
  case False
  then have p: "0 < \<bar>c\<bar>" by simp
  have sx: "0 < sin x" using assms p by linarith
  have "1 < sin x / \<bar>c\<bar>" using assms p by (simp add: field_simps)
  moreover have "\<bar>sin x\<bar> = sin x" using sx by simp
  moreover have "\<bar>- sin x / c\<bar> = \<bar>sin x\<bar> / \<bar>c\<bar>" by (simp add: abs_divide)
  ultimately have "1 < \<bar>- sin x / c\<bar>" by (simp only:)
  then show ?thesis using False by simp
qed

lemma fajr_fallback_Fin:
  assumes "\<bar>cosProd s lat\<bar> < sin (a * pi / 180)"
  shows "js_gt (js_abs (fajr_cosAngle (Fin s) (Fin lat) (Fin a))) (Fin 1)"
    and "calculateFajr (Fin s) (Fin lat) (Fin a) = Fin (s - 1.5)"
proof -
  show g: "js_gt (js_abs (fajr_cosAngle (Fin s) (Fin lat) (Fin a))) (Fin 1)"
    unfolding fajr_cosAngle_Fin using assms by (rule no_solution)
  show "calculateFajr (Fin s) (Fin lat) (Fin a) = Fin (s - 1.5)"
    using g by (simp add: calculateFajr_def Let_def js_sub_Fin)
qed

lemma isha_fallback_Fin:
  assumes "\<bar>cosProd s lat\<bar> < sin (a * pi / 180)"
  shows "js_gt (js_abs (isha_cosAngle (Fin s) (Fin lat) (Fin a))) (Fin 1)"
    and "calculateIsha (Fin s) (Fin lat) (Fin a) = Fin (s + 1.5)"
proof -
  show g: "js_gt (js_abs (isha_cosAngle (Fin s) (Fin lat) (Fin a))) (Fin 1)"
    unfolding isha_cosAngle_Fin using assms by (rule no_solution)
  show "calculateIsha (Fin s) (Fin lat) (Fin a) = Fin (s + 1.5)"
    using g by (simp add: calculateIsha_def Let_def)
qed

lemma cosProd_le: "\<bar>cosProd s lat\<bar> \<le> \<bar>cos (lat * pi / 180)\<bar>"
proof -
  have "\<bar>cos (lat * pi / 180)\<bar> * \<bar>cos (declReal s)\<bar> \<le> \<bar>cos (lat * pi / 180)\<bar> * 1"
    by (rule mult_left_mono) simp_all
  then show ?thesis by (simp add: cosProd_def abs_mult)
qed

section \<open>The method table\<close>

lemma fajrAngleOf_cases:
  "fajrAngleOf m = Fin 18 \<or> fajrAngleOf m = Fin 15 \<or> fajrAngleOf m = Fin 19.5 \<or>
   fajrAngleOf m = Fin 18.5 \<or> fajrAngleOf m = Fin 17.7"
  by (simp add: fajrAngleOf_def methodParams_def js_or_def)

lemma ishaAngleOf_cases:
  "ishaAngleOf m = Fin 18 \<or> ishaAngleOf m = Fin 17 \<or> ishaAngleOf m = Fin 15 \<or>
   ishaAngleOf m = Fin 17.5 \<or> ishaAngleOf m = Fin 90 \<or> ishaAngleOf m = Fin 14"
  by (simp add: ishaAngleOf_def methodParams_def js_or_def)

lemma fajrAngleOf_range: "\<exists>a. fajrAngleOf m = Fin a \<and> 14 \<le> a \<and> a \<le> 90"
  using fajrAngleOf_cases[of m] by auto

lemma ishaAngleOf_range: "\<exists>a. ishaAngleOf m = Fin a \<and> 14 \<le> a \<and> a \<le> 90"
  using ishaAngleOf_cases[of m] by auto

section \<open>The fallback branch of the Fajr and Isha solvers\<close>

lemma cos_89: "cos (89 * pi / 180) = sin (pi / 180)"
  using sin_cos_eq[of "pi / 180 :: real"] by simp

lemma sin_one_degree_less:
  assumes "14 \<le> a" "a \<le> 90"
  shows "sin (pi / 180) < sin (a * pi / 180)"
proof -
  have 1: "pi / 180 < a * pi / 180" using assms by simp
  have 2: "a * pi / 180 \<le> pi / 2" using assms by simp
  have 3: "- (pi / 2) \<le> pi / 180" by (smt (verit) pi_gt_zero divide_pos_pos)
  show ?thesis using sin_mono_less_eq[of "pi / 180" "a * pi / 180"] 1 2 3 by linarith
qed

lemma lat89_no_solution:
  assumes "14 \<le> a" "a \<le> 90"
  shows "\<bar>cosProd s 89\<bar> < sin (a * pi / 180)"
proof -
  have "\<bar>cosProd s 89\<bar> \<le> \<bar>cos (89 * pi / 180)\<bar>" by (rule cosProd_le)
  also have "\<dots> = \<bar>sin (pi / 180)\<bar>" by (simp only: cos_89)
  also have "\<dots> = sin (pi / 180)"
    by (rule abs_of_nonneg, rule sin_ge_zero) (simp_all add: field_simps)
  also have "\<dots> < sin (a * pi / 180)" using assms by (rule sin_one_degree_less)
  finally show ?thesis .
qed

text \<open>
  C5. Whenever the absolute value of the cosine of the hour angle exceeds 1, the Fajr
  solver returns \<open>solarTime - 1.5\<close> and the Isha solver \<open>solarTime + 1.5\<close>. At latitude 89
  degrees both solvers are in that case, for every finite solar time (so for every date,
  the summer ones among them) and for the angles of every method name: there the Fajr
  result is \<open>s - 1.5\<close> and the Isha result \<open>s + 1.5\<close>.
\<close>

theorem fallback_when_no_solution:
  "(js_gt (js_abs (fajr_cosAngle solarTime latitude fajrAngle)) (Fin 1)
      \<longrightarrow> calculateFajr solarTime latitude fajrAngle = js_sub solarTime (Fin 1.5)) \<and>
   (js_gt (js_abs (isha_cosAngle solarTime latitude ishaAngle)) (Fin 1)
      \<longrightarrow> calculateIsha solarTime latitude ishaAngle = js_add solarTime (Fin 1.5)) \<and>
   js_gt (js_abs (fajr_cosAngle (Fin s) (Fin 89) (fajrAngleOf method))) (Fin 1) \<and>
   calculateFajr (Fin s) (Fin 89) (fajrAngleOf method) = Fin (s - 1.5) \<and>
   js_gt (js_abs (isha_cosAngle (Fin s) (Fin 89) (ishaAngleOf method))) (Fin 1) \<and>
   calculateIsha (Fin s) (Fin 89) (ishaAngleOf method) = Fin (s + 1.5)"
proof -
  obtain a where a: "fajrAngleOf method = Fin a" "14 \<le> a" "a \<le> 90"
    using fajrAngleOf_range by blast
  obtain b where b: "ishaAngleOf method = Fin b" "14 \<le> b" "b \<le> 90"
    using ishaAngleOf_range by blast
  have fa: "\<bar>cosProd s 89\<bar> < sin (a * pi / 180)" using a by (simp add: lat89_no_solution)
  have fb: "\<bar>cosProd s 89\<bar> < sin (b * pi / 180)" using b by (simp add: lat89_no_solution)
  show ?thesis
    using fajr_fallback_Fin[OF fa] isha_fallback_Fin[OF fb]
    by (simp add: a b calculateFajr_def calculateIsha_def Let_def)
qed

theorem fallback_when_no_solution_witness:
  "js_gt (js_abs (fajr_cosAngle (Fin 12) (Fin 89) (Fin 18))) (Fin 1) \<and>
   calculateFajr (Fin 12) (Fin 89) (Fin 18) = Fin 10.5 \<and>
   js_gt (js_abs (isha_cosAngle (Fin 12) (Fin 89) (Fin 17))) (Fin 1) \<and>
   calculateIsha (Fin 12) (Fin 89) (Fin 17) = Fin 13.5"
proof -
  have f: "fajrAngleOf ''MWL'' = Fin 18"
    by (simp add: fajrAngleOf_def methodParams_def js_or_def)
  have i: "ishaAngleOf ''MWL'' = Fin 17"
    by (simp add: ishaAngleOf_def methodParams_def js_or_def)
  show ?thesis
    using fallback_when_no_solution[of "Fin 12" "Fin 89" "Fin 18" "Fin 17" 12 "''MWL''"]
    by (simp add: f i js_sub_Fin)
qed

section \<open>The orchestration\<close>

text \<open>
  C2. \<open>calculatePrayerTimes\<close> returns a record on every input, and whenever a step of its
  \<open>try\<close> block throws, the record is the all-zero one. The one step that can throw is the
  call of a UTC getter on a \<open>date\<close> argument that is not a \<open>Date\<close>.
\<close>

theorem never_raises:
  "(calculatePrayerTimes_try h date latitude longitude timezone method madhab = Inl e
      \<longrightarrow> calculatePrayerTimes h date latitude longitude timezone method madhab = zeroTimes) \<and>
   calculatePrayerTimes h NotADate latitude longitude timezone method madhab = zeroTimes"
  by (simp add: calculatePrayerTimes_def calculatePrayerTimes_try_def getJulianDate_def bind_def)

theorem never_raises_witness:
  "calculatePrayerTimes_try sampleEngine NotADate (Fin 16.2) (Fin 77.36) ''Asia/Kolkata''
      (Some ''Karachi'') (Some ''Hanafi'') = Inl TypeError \<and>
   calculatePrayerTimes sampleEngine NotADate (Fin 16.2) (Fin 77.36) ''Asia/Kolkata''
      (Some ''Karachi'') (Some ''Hanafi'') = zeroTimes"
proof -
  have t: "calculatePrayerTimes_try sampleEngine NotADate (Fin 16.2) (Fin 77.36)
      ''Asia/Kolkata'' (Some ''Karachi'') (Some ''Hanafi'') = Inl TypeError"
    by (simp add: calculatePrayerTimes_try_def getJulianDate_def bind_def)
  show ?thesis
    using never_raises[of sampleEngine NotADate "Fin 16.2" "Fin 77.36" "''Asia/Kolkata''"
        "Some ''Karachi''" "Some ''Hanafi''" TypeError] t
    by simp
qed






section \<open>Formatting and parsing\<close>

declare natToString.simps [simp del]

lemma natToString_one_digit: "n < 10 \<Longrightarrow> natToString n = [digitChar n]"
  by (subst natToString.simps) simp

lemma natToString_two_digits:
  assumes "10 \<le> n" "n < 100"
  shows "natToString n = [digitChar (n div 10), digitChar (n mod 10)]"
proof -
  have "n div 10 < 10" using assms by simp
  then show ?thesis
    using assms by (subst natToString.simps) (simp add: natToString_one_digit)
qed

lemma of_char_digitChar: "d < 10 \<Longrightarrow> of_char (digitChar d) = 48 + d"
  by (simp add: digitChar_def)

lemma isDigit_digitChar: "d < 10 \<Longrightarrow> isDigit (digitChar d)"
  by (simp add: isDigit_def of_char_digitChar)

lemma digitVal_digitChar: "d < 10 \<Longrightarrow> digitVal (digitChar d) = d"
  by (simp add: digitVal_def of_char_digitChar)

lemma digitChar_not_colon: "d < 10 \<Longrightarrow> digitChar d \<noteq> CHR '':''"
proof
  assume d: "d < 10" and "digitChar d = CHR '':''"
  then have "of_char (digitChar d) = (of_char (CHR '':'') :: nat)" by simp
  then show False using d by (simp add: of_char_digitChar)
qed

lemma colon_not_digit: "\<not> isDigit CHR '':''"
  by (simp add: isDigit_def)

lemma padStart2_one: "padStart2 [c] = [CHR ''0'', c]"
  by (simp add: padStart2_def)

lemma padStart2_two: "padStart2 [c, d] = [c, d]"
  by (simp add: padStart2_def)

lemma zero_char: "CHR ''0'' = digitChar 0"
  by (simp add: digitChar_def char_of_def bit_iff_odd)

lemma minutes_string:
  assumes "m < 60"
  shows "padStart2 (natToString m) = [digitChar (m div 10), digitChar (m mod 10)]"
proof (cases "m < 10")
  case True
  then show ?thesis by (simp add: natToString_one_digit padStart2_one zero_char)
next
  case False
  then show ?thesis using assms by (simp add: natToString_two_digits padStart2_two)
qed

lemma matchHourMinute_one:
  assumes "dh < 10" "m < 60"
  shows "matchHourMinute (natToString dh @ '':'' @ padStart2 (natToString m) @ rest)
           = Some (dh, m, rest)"
proof -
  have a: "m div 10 < 10" "m mod 10 < 10" using assms by simp_all
  have s: "natToString dh @ '':'' @ padStart2 (natToString m) @ rest
             = digitChar dh # CHR '':'' # digitChar (m div 10) # digitChar (m mod 10) # rest"
    using assms by (simp add: natToString_one_digit minutes_string)
  show ?thesis
    unfolding s using assms a
    by (cases rest)
       (simp_all add: isDigit_digitChar digitVal_digitChar colon_not_digit digitChar_not_colon)
qed

lemma matchHourMinute_two:
  assumes "10 \<le> dh" "dh < 100" "m < 60"
  shows "matchHourMinute (natToString dh @ '':'' @ padStart2 (natToString m) @ rest)
           = Some (dh, m, rest)"
proof -
  have a: "m div 10 < 10" "m mod 10 < 10" "dh div 10 < 10" "dh mod 10 < 10"
    using assms by simp_all
  have s: "natToString dh @ '':'' @ padStart2 (natToString m) @ rest
             = digitChar (dh div 10) # digitChar (dh mod 10) # CHR '':'' #
               digitChar (m div 10) # digitChar (m mod 10) # rest"
    using assms by (simp add: natToString_two_digits minutes_string)
  show ?thesis
    unfolding s using a by (simp add: isDigit_digitChar digitVal_digitChar)
qed

lemma matchHourMinute_formatted:
  assumes "dh < 100" "m < 60"
  shows "matchHourMinute (natToString dh @ '':'' @ padStart2 (natToString m) @ rest)
           = Some (dh, m, rest)"
  using assms matchHourMinute_one[of dh m rest] matchHourMinute_two[of dh m rest]
  by (cases "dh < 10") simp_all

lemma matchSpacePeriod_AM: "matchSpacePeriod '' AM'' = Some ''AM''"
  by (simp add: matchSpacePeriod_def isSpace_def)

lemma matchSpacePeriod_PM: "matchSpacePeriod '' PM'' = Some ''PM''"
  by (simp add: matchSpacePeriod_def isSpace_def)

lemma convert_AM:
  assumes "dh < 100" "m < 60"
  shows "convertTimeToDecimal (natToString dh @ '':'' @ padStart2 (natToString m) @ '' '' @ ''AM'')
           = Fin ((if dh = 12 then 0 else real dh) + real m / 60)"
proof -
  have ne: "natToString dh @ '':'' @ padStart2 (natToString m) @ '' '' @ ''AM'' \<noteq> []" by simp
  have mm: "matchHourMinute (natToString dh @ '':'' @ padStart2 (natToString m) @ '' '' @ ''AM'')
              = Some (dh, m, '' AM'')"
    using matchHourMinute_formatted[OF assms, of "'' AM''"] by simp
  show ?thesis
    unfolding convertTimeToDecimal_def
    by (simp only: ne mm if_False option.case prod.case) (simp add: matchSpacePeriod_AM Let_def)
qed

lemma convert_PM:
  assumes "dh < 100" "m < 60"
  shows "convertTimeToDecimal (natToString dh @ '':'' @ padStart2 (natToString m) @ '' '' @ ''PM'')
           = Fin ((if dh = 12 then 12 else real dh + 12) + real m / 60)"
proof -
  have ne: "natToString dh @ '':'' @ padStart2 (natToString m) @ '' '' @ ''PM'' \<noteq> []" by simp
  have mm: "matchHourMinute (natToString dh @ '':'' @ padStart2 (natToString m) @ '' '' @ ''PM'')
              = Some (dh, m, '' PM'')"
    using matchHourMinute_formatted[OF assms, of "'' PM''"] by simp
  show ?thesis
    unfolding convertTimeToDecimal_def
    by (simp only: ne mm if_False option.case prod.case) (simp add: matchSpacePeriod_PM Let_def)
qed

lemma fmod_int_12:
  assumes "0 \<le> h"
  shows "fmod (of_int h) 12 = of_int (h mod 12)"
proof -
  have "(0::real) \<le> of_int h / 12" using assms by simp
  then have "trunc (of_int h / 12) = \<lfloor>(of_int h :: real) / of_int 12\<rfloor>"
    by (simp add: trunc_def)
  also have "\<dots> = h div 12" by (rule floor_divide_of_int_eq)
  finally have t: "trunc (of_int h / 12) = h div 12" .
  have "h mod 12 = h - 12 * (h div 12)" by (simp add: minus_mult_div_eq_mod)
  then have "(of_int (h mod 12) :: real) = of_int h - 12 * of_int (h div 12)" by simp
  then show ?thesis by (simp add: fmod_def t)
qed

lemma formatTime_Fin:
  assumes "0 < x" "x < 24"
  defines "h \<equiv> \<lfloor>x\<rfloor>"
  defines "m \<equiv> \<lfloor>(x - of_int h) * 60\<rfloor>"
  defines "dh \<equiv> (if h mod 12 = 0 then 12 else h mod 12)"
  shows "formatTime (Fin x) =
           natToString (nat dh) @ '':'' @ padStart2 (natToString (nat m)) @ '' '' @
             (if 12 \<le> h then ''PM'' else ''AM'')"
proof -
  have h0: "0 \<le> h" using assms by simp
  have m0: "0 \<le> m" unfolding m_def h_def by simp
  have dh0: "0 \<le> dh" unfolding dh_def by simp
  have nf: "\<not> js_falsy (Fin x)" using assms by simp
  have hours: "js_floor (Fin x) = Fin (of_int h)" by (simp add: h_def)
  have minutes: "js_floor (js_mul (js_sub (Fin x) (Fin (of_int h))) (Fin 60)) = Fin (of_int m)"
    by (simp add: js_sub_Fin m_def)
  have ge: "js_ge (Fin (of_int h)) (Fin 12) = (12 \<le> h)"
  proof -
    have "js_ge (Fin (of_int h)) (Fin 12) = ((of_int h :: real) = 12 \<or> (12::real) < of_int h)"
      by simp
    also have "\<dots> = (12 \<le> h)" by linarith
    finally show ?thesis .
  qed
  have disp: "js_or (js_mod (Fin (of_int h)) (Fin 12)) (Fin 12) = Fin (of_int dh)"
    using h0 by (simp add: js_or_def fmod_int_12 dh_def)
  have sd: "numToString (Fin (of_int dh)) = natToString (nat dh)"
    using dh0 by (simp add: intToString_def)
  have sm: "numToString (Fin (of_int m)) = natToString (nat m)"
    using m0 by (simp add: intToString_def)
  show ?thesis
    unfolding formatTime_def Let_def
    by (simp only: nf if_False hours minutes ge disp sd sm)
qed

text \<open>
  C8. For every decimal hour \<open>x\<close> with \<open>0 < x < 24\<close>, \<open>formatTime\<close> gives a string that
  \<open>convertTimeToDecimal\<close> parses back to a number within one minute (1/60 hour) of \<open>x\<close>.
\<close>

theorem format_parse_round_trip:
  assumes "0 < x" "x < 24"
  shows "\<exists>y. convertTimeToDecimal (formatTime (Fin x)) = Fin y \<and> \<bar>y - x\<bar> < 1 / 60"
proof -
  define h where "h = \<lfloor>x\<rfloor>"
  define m where "m = \<lfloor>(x - of_int h) * 60\<rfloor>"
  define dh where "dh = (if h mod 12 = 0 then 12 else h mod 12)"
  have h0: "0 \<le> h" and h24: "h < 24" using assms by (simp_all add: h_def floor_less_iff)
  have fr: "0 \<le> x - of_int h" "x - of_int h < 1" unfolding h_def by linarith+
  have m0: "0 \<le> m" unfolding m_def using fr by simp
  have m60: "m < 60" unfolding m_def using fr by (simp add: floor_less_iff)
  have dh_r: "0 < dh" "dh \<le> 12" unfolding dh_def
    using pos_mod_sign[of 12 h] pos_mod_bound[of 12 h] by (auto split: if_splits)
  have ndh: "nat dh < 100" and nm: "nat m < 60" using dh_r m0 m60 by simp_all
  have rdh: "real (nat dh) = of_int dh" and rm: "real (nat m) = of_int m"
    using dh_r m0 by simp_all
  have f: "formatTime (Fin x) =
           natToString (nat dh) @ '':'' @ padStart2 (natToString (nat m)) @ '' '' @
             (if 12 \<le> h then ''PM'' else ''AM'')"
    using formatTime_Fin[OF assms] by (simp add: h_def m_def dh_def)
  have c: "convertTimeToDecimal (formatTime (Fin x)) = Fin (of_int h + of_int m / 60)"
  proof (cases "12 \<le> h")
    case True
    have "(if nat dh = 12 then 12 else real (nat dh) + 12) = of_int h"
    proof (cases "h = 12")
      case True then show ?thesis by (simp add: dh_def)
    next
      case False
      with \<open>12 \<le> h\<close> h24 have "h mod 12 = h - 12" "h - 12 \<noteq> 0" "h - 12 \<noteq> 12"
        by presburger+
      then show ?thesis using \<open>12 \<le> h\<close> by (simp add: dh_def)
    qed
    then show ?thesis using True convert_PM[OF ndh nm] by (simp add: f rm)
  next
    case False
    then have hm: "h mod 12 = h" using h0 by simp
    have "(if nat dh = 12 then 0 else real (nat dh)) = of_int h"
      using False h0 by (auto simp: dh_def hm)
    then show ?thesis using False convert_AM[OF ndh nm] by (simp add: f rm)
  qed
  have lo: "of_int m \<le> (x - of_int h) * 60" unfolding m_def by simp
  have hi: "(x - of_int h) * 60 < of_int m + 1" unfolding m_def by linarith
  have "\<bar>(of_int h + of_int m / 60) - x\<bar> < 1 / 60" using lo hi by (simp add: field_simps abs_if)
  then show ?thesis using c by blast
qed

lemma formatTime_example: "formatTime (Fin 13.51) = ''1:30 PM''"
proof -
  have a: "\<lfloor>1351 / 100 :: real\<rfloor> = 13" by simp
  have "formatTime (Fin 13.51) = natToString (nat 1) @ '':'' @ padStart2 (natToString (nat 30)) @ '' '' @ ''PM''"
    using formatTime_Fin[of "13.51"] by (simp add: a)
  also have "\<dots> = ''1:30 PM''"
    by (simp add: natToString_one_digit natToString_two_digits padStart2_def digitChar_def char_of_def bit_iff_odd)
  finally show ?thesis .
qed

lemma convertTimeToDecimal_example: "convertTimeToDecimal ''1:30 PM'' = Fin 13.5"
  by (simp add: convertTimeToDecimal_def isDigit_def digitVal_def matchSpacePeriod_def isSpace_def Let_def)

theorem format_parse_round_trip_witness:
  "formatTime (Fin 13.51) = ''1:30 PM'' \<and> convertTimeToDecimal ''1:30 PM'' = Fin 13.5 \<and>
   (\<exists>y. convertTimeToDecimal (formatTime (Fin 13.51)) = Fin y \<and> \<bar>y - 13.51\<bar> < 1 / 60)"
  using format_parse_round_trip[of "13.51"] formatTime_example convertTimeToDecimal_example
  by simp

section \<open>Dependence on the host\<close>








lemma hourMinuteString_epoch: "hourMinuteString 19800000 = ''5:30 AM''"
  by code_simp


lemma parseDateTime_time_only:
  "parseDateTime ''5:30 AM'' = None" "parseDateTime ''6:30 AM'' = None"
  by code_simp+

lemma dateTimeString_example: "dateTimeString 1711846800000 = ''3/31/2024, 1:00:00 AM''"
  by code_simp

lemma parseDateTime_example: "parseDateTime ''3/31/2024, 1:00:00 AM'' = Some 1711846800000"
  by code_simp




section \<open>Bounds on sines, cosines and the declination\<close>

lemma pi_ge_3: "3 \<le> pi"
proof -
  have "sin (pi / 6) \<le> pi / 6" by (rule sin_x_le_x) simp
  then show ?thesis by (simp add: sin_30)
qed

lemma sin_lower:
  fixes x :: real
  assumes "0 \<le> x"
  shows "x - x ^ 3 / 6 \<le> sin x"
proof -
  have s: "(\<Sum>m<3. sin_coeff m * x ^ m) = x"
    by (simp add: sin_coeff_def numeral_3_eq_3)
  have "\<bar>sin x - (\<Sum>m<3. sin_coeff m * x ^ m)\<bar> \<le> inverse (fact 3) * \<bar>x\<bar> ^ 3"
    by (rule Maclaurin_sin_bound)
  then have "\<bar>sin x - x\<bar> \<le> x ^ 3 / 6"
    using assms by (simp add: s fact_numeral)
  then show ?thesis by linarith
qed

lemma cos_lower: "1 - x\<^sup>2 / 2 \<le> cos (x::real)"
proof -
  have "cos x = cos (2 * (x / 2))" by simp
  also have "\<dots> = 1 - 2 * (sin (x / 2))\<^sup>2" by (rule cos_double_sin)
  finally have c: "cos x = 1 - 2 * (sin (x / 2))\<^sup>2" .
  have "\<bar>sin (x / 2)\<bar> \<le> \<bar>x / 2\<bar>" by (rule abs_sin_x_le_abs_x)
  then have "(sin (x / 2))\<^sup>2 \<le> (x / 2)\<^sup>2"
    by (simp only: abs_le_square_iff)
  then show ?thesis using c by (simp add: power2_eq_square)
qed

lemma arcsin_le_double:
  assumes "0 \<le> x" "x \<le> 1 / 2"
  shows "arcsin x \<le> 2 * x"
proof -
  define t where "t = 2 * x"
  have t: "0 \<le> t" "t \<le> 1" using assms by (simp_all add: t_def)
  have "t * t \<le> 1" using t by (simp add: mult_le_one)
  then have "t * t * t \<le> 1 * t" using t(1) by (rule mult_right_mono)
  then have "t ^ 3 \<le> t" by (simp add: power3_eq_cube)
  then have "t / 2 \<le> t - t ^ 3 / 6" using t by linarith
  also have "\<dots> \<le> sin t" using t(1) by (rule sin_lower)
  finally have x: "x \<le> sin t" by (simp add: t_def)
  have "t \<le> pi / 2" using t pi_ge_two by linarith
  moreover have "- (pi / 2) \<le> t" using t pi_ge_two by linarith
  ultimately have a: "arcsin (sin t) = t" by (simp add: arcsin_sin)
  have "arcsin x \<le> arcsin (sin t)"
    by (rule arcsin_le_arcsin) (use assms x in simp_all)
  then show ?thesis using a by (simp add: t_def)
qed

lemma abs_arcsin_le_double:
  assumes "\<bar>x\<bar> \<le> 1 / 2"
  shows "\<bar>arcsin x\<bar> \<le> 2 * \<bar>x\<bar>"
proof (cases "0 \<le> x")
  case True
  then have "0 \<le> arcsin x" using assms by (simp add: arcsin_nonneg)
  then show ?thesis using True assms arcsin_le_double[of x] by simp
next
  case False
  then have n: "0 \<le> - x" "- x \<le> 1 / 2" using assms by simp_all
  have m: "arcsin (- x) = - arcsin x" using assms by (simp add: arcsin_minus)
  have "0 \<le> arcsin (- x)" using n by (simp add: arcsin_nonneg del: arcsin_minus)
  then show ?thesis using arcsin_le_double[OF n] m False by simp
qed

lemma fmod_small:
  assumes "\<bar>x\<bar> < y"
  shows "fmod x y = x"
proof -
  have y: "0 < y" using assms by linarith
  have "\<bar>x / y\<bar> < 1" using assms y by simp
  then have "- 1 < x / y" "x / y < 1" by linarith+
  then have "trunc (x / y) = 0"
    by (simp add: trunc_def floor_eq_iff ceiling_eq_iff)
  then show ?thesis by (simp add: fmod_def)
qed

lemma declReal_unfold:
  assumes "fmod (357.529 + 0.98560028 * (s * 24 - 2451545.0)) 360 = g"
    and "fmod (280.459 + 0.98564736 * (s * 24 - 2451545.0)) 360 = q"
    and "23.439 - 0.00000036 * (s * 24 - 2451545.0) = e"
  shows "declReal s =
           arcsin (sin (e * pi / 180) *
                   sin (fmod (q + 1.915 * sin (g * pi / 180) + 0.020 * sin (2 * g * pi / 180)) 360
                        * pi / 180)) * 180 / pi"
  by (simp only: declReal_def Let_def assms)

text \<open>The two periodic terms of the ecliptic longitude, for a mean anomaly just below a full turn.\<close>
lemma perturbation_bounds:
  fixes g g' :: real
  assumes "g + 360 = g'" "0 \<le> g'" "g' \<le> 12"
  shows "0 \<le> 1.915 * sin (g * pi / 180) + 0.020 * sin (2 * g * pi / 180)"
    and "1.915 * sin (g * pi / 180) + 0.020 * sin (2 * g * pi / 180) \<le> g' * (391 / 9000)"
proof -
  define a where "a = g' * pi / 180"
  have a0: "0 \<le> a" using assms by (simp add: a_def)
  have "g' * pi \<le> 12 * pi" using assms by simp
  then have a1: "2 * a \<le> pi" by (simp add: a_def)
  have a4: "a \<le> g' * (4 / 180)"
  proof -
    have "g' * pi \<le> g' * 4" using assms(2) pi_less_4 by (intro mult_left_mono) simp_all
    then have "g' * pi / 180 \<le> g' * 4 / 180" by (rule divide_right_mono) simp
    then show ?thesis by (simp only: a_def times_divide_eq_right)
  qed
  have e1: "g * pi / 180 = a - 2 * pi"
    unfolding a_def assms(1)[symmetric] by (simp add: field_simps)
  have e2: "2 * g * pi / 180 = 2 * a - 2 * pi - 2 * pi"
    unfolding a_def assms(1)[symmetric] by (simp add: field_simps)
  have s1: "sin (g * pi / 180) = sin a"
    unfolding e1 using sin_periodic[of "a - 2 * pi"] by simp
  have s2: "sin (2 * g * pi / 180) = sin (2 * a)"
    unfolding e2 using sin_periodic[of "2 * a - 2 * pi - 2 * pi"] sin_periodic[of "2 * a - 2 * pi"]
    by simp
  have p1: "0 \<le> sin a" using a0 a1 by (intro sin_ge_zero) simp_all
  have p2: "0 \<le> sin (2 * a)" using a0 a1 by (intro sin_ge_zero) simp_all
  have u1: "sin a \<le> a" using a0 by (rule sin_x_le_x)
  have u2: "sin (2 * a) \<le> 2 * a" using a0 by (intro sin_x_le_x) simp
  show "0 \<le> 1.915 * sin (g * pi / 180) + 0.020 * sin (2 * g * pi / 180)"
    unfolding s1 s2 using p1 p2 by simp
  have "1.915 * sin a + 0.020 * sin (2 * a) \<le> 1.915 * a + 0.020 * (2 * a)"
    using u1 u2 by simp
  also have "\<dots> = 1.955 * a" by simp
  also have "\<dots> \<le> 1.955 * (g' * (4 / 180))" using a4 by simp
  also have "\<dots> = g' * (391 / 9000)" by simp
  finally show "1.915 * sin (g * pi / 180) + 0.020 * sin (2 * g * pi / 180) \<le> g' * (391 / 9000)"
    unfolding s1 s2 .
qed

lemma sin_half_turn_back: "sin ((d - 180) * pi / 180) = - sin (d * pi / 180)"
proof -
  have e: "(d - 180) * pi / 180 = d * pi / 180 - pi" by (simp add: field_simps)
  show ?thesis by (simp only: e sin_minus_pi)
qed

lemma sin_obliquity:
  assumes "0 \<le> e" "e \<le> 30"
  shows "0 \<le> sin (e * pi / 180)" and "sin (e * pi / 180) \<le> 1 / 2"
proof -
  have r: "0 \<le> e * pi / 180" "e * pi / 180 \<le> pi / 6" using assms by simp_all
  show "0 \<le> sin (e * pi / 180)"
    using r pi_gt_zero by (intro sin_ge_zero) linarith+
  have "sin (e * pi / 180) \<le> sin (pi / 6)"
    using r pi_gt_zero by (subst sin_mono_le_eq) linarith+
  then show "sin (e * pi / 180) \<le> 1 / 2" by (simp add: sin_30)
qed

text \<open>
  Two solar times at which the declination can be bounded by hand: at 12.59375 it is within
  half a degree of zero, at 12.28125 it lies between 2.85 and 4.5 degrees.
\<close>

lemma declination_noon_small: "\<bar>declReal (403 / 32)\<bar> < 1 / 2"
proof -
  define g :: real where "g = - 34801174797 / 100000000"
  define q :: real where "q = - 70502444 / 390625"
  define e :: real where "e = 2432144739 / 100000000"
  define p where "p = 1.915 * sin (g * pi / 180) + 0.020 * sin (2 * g * pi / 180)"
  have g: "fmod (357.529 + 0.98560028 * (403 / 32 * 24 - 2451545.0)) 360 = g"
    by (simp add: fmod_def trunc_def g_def)
  have q: "fmod (280.459 + 0.98564736 * (403 / 32 * 24 - 2451545.0)) 360 = q"
    by (simp add: fmod_def trunc_def q_def)
  have e: "23.439 - 0.00000036 * (403 / 32 * 24 - 2451545.0) = e"
    by (simp add: e_def)
  have d: "declReal (403 / 32) =
             arcsin (sin (e * pi / 180) * sin (fmod (q + p) 360 * pi / 180)) * 180 / pi"
    using declReal_unfold[OF g q e] by (simp only: p_def add.assoc)
  have p0: "0 \<le> p" and p1: "p \<le> 1198825203 / 100000000 * (391 / 9000)"
    unfolding p_def
    by (rule perturbation_bounds[of g "1198825203 / 100000000"]; simp add: g_def)+
  have p2: "p \<le> (521 / 1000)" using p1 by simp
  have L: "fmod (q + p) 360 = q + p"
    by (rule fmod_small) (use p0 p2 in \<open>simp add: q_def\<close>)
  define dl where "dl = q + p + 180"
  have "dl = p - 189944 / 390625" by (simp add: dl_def q_def)
  then have dl: "\<bar>dl\<bar> \<le> (4863 / 10000)" using p0 p2 by linarith
  have sL: "sin ((q + p) * pi / 180) = - sin (dl * pi / 180)"
    using sin_half_turn_back[of dl] by (simp add: dl_def)
  have "\<bar>sin (dl * pi / 180)\<bar> \<le> \<bar>dl * pi / 180\<bar>" by (rule abs_sin_x_le_abs_x)
  also have "\<dots> = \<bar>dl\<bar> * pi / 180" by (simp add: abs_mult)
  also have "\<dots> \<le> (4863 / 10000) * pi / 180" using dl by simp
  finally have b1: "\<bar>sin ((q + p) * pi / 180)\<bar> \<le> (4863 / 10000) * pi / 180" by (simp add: sL)
  have se: "0 \<le> sin (e * pi / 180)" "sin (e * pi / 180) \<le> 1 / 2"
    by (rule sin_obliquity; simp add: e_def)+
  define x where "x = sin (e * pi / 180) * sin ((q + p) * pi / 180)"
  have "\<bar>x\<bar> = sin (e * pi / 180) * \<bar>sin ((q + p) * pi / 180)\<bar>"
    using se(1) by (simp add: x_def abs_mult)
  also have "\<dots> \<le> 1 / 2 * ((4863 / 10000) * pi / 180)"
    using se b1 by (intro mult_mono) simp_all
  finally have bx: "\<bar>x\<bar> \<le> 1 / 2 * ((4863 / 10000) * pi / 180)" .
  have "1 / 2 * ((4863 / 10000) * pi / 180) \<le> 1 / 2 * ((4863 / 10000) * 4 / 180)"
    using pi_less_4 by simp
  then have x12: "\<bar>x\<bar> \<le> 1 / 2" using bx by simp
  have "\<bar>arcsin x\<bar> \<le> 2 * \<bar>x\<bar>" using x12 by (rule abs_arcsin_le_double)
  then have ba: "\<bar>arcsin x\<bar> \<le> (4863 / 10000) * pi / 180" using bx by simp
  have "\<bar>arcsin x * 180 / pi\<bar> = \<bar>arcsin x\<bar> * 180 / pi" by (simp add: abs_mult)
  also have "\<dots> \<le> ((4863 / 10000) * pi / 180) * 180 / pi"
    using ba by (intro divide_right_mono mult_right_mono) simp_all
  also have "\<dots> = (4863 / 10000)" by simp
  finally have "\<bar>arcsin x * 180 / pi\<bar> \<le> (4863 / 10000)" .
  then have "\<bar>arcsin x * 180 / pi\<bar> < 1 / 2" by linarith
  then show ?thesis by (simp only: d L x_def)
qed

lemma cos_negative:
  assumes "pi / 2 < x" "x < 3 * pi / 2"
  shows "cos x < 0"
proof -
  have "0 < cos (x - pi)" using assms by (intro cos_gt_zero_pi) simp_all
  moreover have "cos (x - pi + pi) = - cos (x - pi)" by (rule cos_periodic_pi)
  ultimately show ?thesis by simp
qed

lemma sin_lower_scaled:
  fixes y c :: real
  assumes "0 \<le> y" "y\<^sup>2 \<le> 6 * c" 
  shows "y - c * y \<le> sin y"
proof -
  have "y ^ 3 = y\<^sup>2 * y" by (simp add: power3_eq_cube power2_eq_square)
  also have "\<dots> \<le> 6 * c * y" using assms by (intro mult_right_mono) simp_all
  finally have "y - y ^ 3 / 6 \<ge> y - c * y" by (simp add: algebra_simps)
  then show ?thesis using sin_lower[OF assms(1)] by linarith
qed

lemma declination_morning_range:
  "285 / 100 \<le> declReal (393 / 32) \<and> declReal (393 / 32) < 9 / 2"
proof -
  define g :: real where "g = - 35540375007 / 100000000"
  define q :: real where "q = - 293560331 / 1562500"
  define e :: real where "e = 2432145009 / 100000000"
  define p where "p = 1.915 * sin (g * pi / 180) + 0.020 * sin (2 * g * pi / 180)"
  have g: "fmod (357.529 + 0.98560028 * (393 / 32 * 24 - 2451545.0)) 360 = g"
    by (simp add: fmod_def trunc_def g_def)
  have q: "fmod (280.459 + 0.98564736 * (393 / 32 * 24 - 2451545.0)) 360 = q"
    by (simp add: fmod_def trunc_def q_def)
  have e: "23.439 - 0.00000036 * (393 / 32 * 24 - 2451545.0) = e"
    by (simp add: e_def)
  have d: "declReal (393 / 32) =
             arcsin (sin (e * pi / 180) * sin (fmod (q + p) 360 * pi / 180)) * 180 / pi"
    using declReal_unfold[OF g q e] by (simp only: p_def add.assoc)
  have p0: "0 \<le> p" and p1: "p \<le> 459624993 / 100000000 * (391 / 9000)"
    unfolding p_def
    by (rule perturbation_bounds[of g "459624993 / 100000000"]; simp add: g_def)+
  have p2: "p \<le> 1997 / 10000" using p1 by simp
  have L: "fmod (q + p) 360 = q + p"
    by (rule fmod_small) (use p0 p2 in \<open>simp add: q_def\<close>)
  define m where "m = - (q + p + 180)"
  have "m = 12310331 / 1562500 - p" by (simp add: m_def q_def)
  then have m: "7678 / 1000 \<le> m" "m \<le> 7879 / 1000" using p0 p2 by linarith+
  define y where "y = m * pi / 180"
  have qp: "q + p = - m - 180" by (simp add: m_def)
  have nm: "(- m) * pi / 180 = - (m * pi / 180)" by simp
  have "sin ((q + p) * pi / 180) = - sin ((- m) * pi / 180)"
    unfolding qp by (rule sin_half_turn_back)
  also have "\<dots> = sin (m * pi / 180)" unfolding nm by (simp only: sin_minus minus_minus)
  finally have sL: "sin ((q + p) * pi / 180) = sin y" by (simp only: y_def)
  have m0: "0 \<le> m" using m(1) by linarith
  have mp0: "0 \<le> m * pi" using m0 by simp
  have mp4: "m * pi \<le> (7879 / 1000) * 4"
    using m(2) m0 pi_less_4 by (intro mult_mono) simp_all
  have mp_hi: "m * pi \<le> (7879 / 1000) * pi"
    using m(2) by (intro mult_right_mono) simp_all
  have mp_lo: "(7678 / 1000) * pi \<le> m * pi"
    using m(1) by (intro mult_right_mono) simp_all
  have y0: "0 \<le> y" unfolding y_def using mp0 by linarith
  have y1: "y \<le> 18 / 100" unfolding y_def using mp4 by linarith
  have "y\<^sup>2 \<le> (18 / 100)\<^sup>2" using y0 y1 by (intro power_mono) simp_all
  then have "y\<^sup>2 \<le> 6 * (1 / 100)" by (simp add: power2_eq_square)
  then have ylo: "y - 1 / 100 * y \<le> sin y" using y0 by (rule sin_lower_scaled[rotated])
  have yhi: "sin y \<le> y" using y0 by (rule sin_x_le_x)
  define z where "z = e * pi / 180"
  have z0: "0 \<le> z" by (simp add: z_def e_def)
  have z1: "z \<le> 55 / 100" unfolding z_def e_def using pi_less_4 by linarith
  have z3: "40 / 100 \<le> z" unfolding z_def e_def using pi_ge_3 by linarith
  have "z\<^sup>2 \<le> (55 / 100)\<^sup>2" using z0 z1 by (intro power_mono) simp_all
  then have "z\<^sup>2 \<le> 6 * (6 / 100)" by (simp add: power2_eq_square)
  then have zlo: "z - 6 / 100 * z \<le> sin z" using z0 by (rule sin_lower_scaled[rotated])
  have sz_lo: "376 / 1000 \<le> sin z" using zlo z3 by linarith
  have se: "0 \<le> sin z" "sin z \<le> 1 / 2"
    unfolding z_def by (rule sin_obliquity; simp add: e_def)+
  define x where "x = sin z * sin y"
  have sy_lo: "(99 / 100) * y \<le> sin y" using ylo by linarith
  have sy0: "0 \<le> sin y" using sy_lo y0 by linarith
  have "x \<le> 1 / 2 * y" unfolding x_def using se sy0 yhi by (intro mult_mono) simp_all
  then have xhi: "x \<le> (39395 / 10000) * pi / 180" unfolding y_def using mp_hi by linarith
  have "(376 / 1000) * ((99 / 100) * y) \<le> sin z * sin y"
    using sz_lo sy_lo se(1) y0 by (intro mult_mono) simp_all
  then have "(376 / 1000) * ((99 / 100) * ((7678 / 1000) * pi / 180)) \<le> x"
    unfolding x_def y_def using mp_lo by linarith
  then have xlo: "(285 / 100) * pi / 180 \<le> x" using pi_gt_zero by linarith
  have x0: "0 \<le> x" unfolding x_def using se(1) sy0 by simp
  have "sin z * sin y \<le> 1 * 1" by (intro mult_mono) (use se(1) sy0 in simp_all)
  then have x1: "x \<le> 1" by (simp add: x_def)
  define t where "t = (285 / 100) * pi / 180"
  have t: "0 \<le> t" "t \<le> pi / 2" "- (pi / 2) \<le> t" unfolding t_def using pi_gt_zero by linarith+
  have "sin t \<le> t" using t(1) by (rule sin_x_le_x)
  then have "sin t \<le> x" using xlo unfolding t_def by linarith
  then have "arcsin (sin t) \<le> arcsin x" using x1 by (intro arcsin_le_arcsin) simp_all
  then have alo: "t \<le> arcsin x" using t by (simp add: arcsin_sin)
  define w where "w = (9 / 2) * pi / 180"
  have w: "0 \<le> w" "w \<le> pi / 2" "- (pi / 2) \<le> w" unfolding w_def using pi_gt_zero by linarith+
  have w1: "w \<le> 1 / 10" unfolding w_def using pi_less_4 by linarith
  have "w\<^sup>2 \<le> (1 / 10)\<^sup>2" using w(1) w1 by (intro power_mono) simp_all
  then have "w\<^sup>2 \<le> 6 * (1 / 100)" by (simp add: power2_eq_square)
  then have "w - 1 / 100 * w \<le> sin w" using w(1) by (rule sin_lower_scaled[rotated])
  moreover have "x < w - 1 / 100 * w" using xhi pi_gt_zero unfolding w_def by linarith
  ultimately have "x < sin w" by linarith
  then have "arcsin x < arcsin (sin w)" using x0 by (intro arcsin_less_arcsin) simp_all
  then have ahi: "arcsin x < w" using w by (simp add: arcsin_sin)
  have ip: "0 < 180 / pi" by simp
  have "t * (180 / pi) \<le> arcsin x * (180 / pi)"
    using alo ip by (intro mult_right_mono) simp_all
  moreover have "t * (180 / pi) = 285 / 100" by (simp add: t_def)
  ultimately have r1: "285 / 100 \<le> arcsin x * 180 / pi" by simp
  have "arcsin x * (180 / pi) < w * (180 / pi)"
    using ahi ip by (intro mult_strict_right_mono)
  moreover have "w * (180 / pi) = 9 / 2" by (simp add: w_def)
  ultimately have r2: "arcsin x * 180 / pi < 9 / 2" by simp
  show ?thesis using r1 r2 by (simp only: d L x_def sL z_def)
qed

lemma cos_latitude_pos:
  assumes "\<bar>lat\<bar> < 90"
  shows "0 < cos (lat * pi / 180)"
proof -
  have l: "lat < 90" "- 90 < lat" using assms by linarith+
  have "lat * pi < 90 * pi" using l(1) by (intro mult_strict_right_mono) simp_all
  moreover have "(- 90) * pi < lat * pi" using l(2) by (intro mult_strict_right_mono) simp_all
  ultimately show ?thesis by (intro cos_gt_zero_pi) linarith+
qed

lemma cos_declination_noon: "7 / 8 \<le> cos (declReal (403 / 32))"
proof -
  define d where "d = declReal (403 / 32)"
  have d: "\<bar>d\<bar> < 1 / 2" unfolding d_def by (rule declination_noon_small)
  then have "\<bar>d\<bar> * \<bar>d\<bar> \<le> (1 / 2) * (1 / 2)" by (intro mult_mono) simp_all
  then have "d\<^sup>2 \<le> (1 / 2)\<^sup>2" by (simp add: power2_eq_square)
  then have "1 - d\<^sup>2 / 2 \<ge> 7 / 8" by (simp add: power2_eq_square)
  then show ?thesis using cos_lower[of d] unfolding d_def by linarith
qed

lemma cosProd_noon_pos:
  assumes "\<bar>lat\<bar> < 90"
  shows "0 < cosProd (403 / 32) lat"
  unfolding cosProd_def using cos_latitude_pos[OF assms] cos_declination_noon
  by (intro mult_pos_pos) linarith+

lemma cos_declination_morning: "cos (declReal (393 / 32)) < 0"
proof -
  have "pi / 2 < declReal (393 / 32)"
    using declination_morning_range pi_half_less_two by linarith
  moreover have "declReal (393 / 32) < 3 * pi / 2"
    using declination_morning_range pi_ge_3 by linarith
  ultimately show ?thesis by (rule cos_negative)
qed

text \<open>
  C7. At a finite solar time and latitude for which the denominator
  \<open>cos(lat) * cos(declination)\<close> is not zero, \<open>calculateSunrise\<close> returns exactly
  \<open>solarTime - 6\<close> and \<open>calculateMaghrib\<close> exactly \<open>solarTime + 6\<close>: the numerator
  \<open>-sin(0)\<close> is zero, so the hour angle is 90 degrees whatever the latitude and the date.
\<close>

theorem sunrise_maghrib_six_hours:
  assumes "js_mul (Math_cos (toRadians (Fin lat))) (Math_cos (calculateDeclination (Fin s)))
             \<noteq> Fin 0"
  shows "calculateSunrise (Fin s) (Fin lat) = Fin (s - 6) \<and>
         calculateMaghrib (Fin s) (Fin lat) = Fin (s + 6)"
proof -
  from assms have "cosProd s lat \<noteq> 0" by (simp add: denominator_Fin)
  then show ?thesis by (simp add: calculateSunrise_Fin calculateMaghrib_Fin)
qed

theorem sunrise_maghrib_six_hours_witness:
  "js_mul (Math_cos (toRadians (Fin 21.4225))) (Math_cos (calculateDeclination (Fin (403 / 32))))
     \<noteq> Fin 0 \<and>
   calculateSunrise (Fin (403 / 32)) (Fin 21.4225) = Fin (211 / 32) \<and>
   calculateMaghrib (Fin (403 / 32)) (Fin 21.4225) = Fin (595 / 32)"
proof -
  have "0 < cosProd (403 / 32) 21.4225" by (rule cosProd_noon_pos) simp
  then have nz: "js_mul (Math_cos (toRadians (Fin 21.4225)))
      (Math_cos (calculateDeclination (Fin (403 / 32)))) \<noteq> Fin 0"
    by (simp add: denominator_Fin)
  show ?thesis
    using nz sunrise_maghrib_six_hours[OF nz] by simp
qed

section \<open>The method Makkah\<close>

lemma ishaAngleOf_Makkah: "ishaAngleOf ''Makkah'' = Fin 90"
  by (simp add: ishaAngleOf_def methodParams_def js_or_def)

lemma sin_90_degrees: "sin (90 * pi / 180) = 1"
  by simp

lemma cos_latitude_less_one:
  assumes "0 < lat" "lat < 90"
  shows "\<bar>cos (lat * pi / 180)\<bar> < 1"
proof -
  have p: "0 < cos (lat * pi / 180)" using assms by (intro cos_latitude_pos) simp
  have "lat * pi < 90 * pi" using assms(2) by (intro mult_strict_right_mono) simp_all
  then have "lat * pi / 180 \<le> pi" by simp
  moreover have "0 < lat * pi / 180" using assms(1) by simp
  ultimately have "cos (lat * pi / 180) < cos 0"
    by (intro cos_monotone_0_pi) simp_all
  then show ?thesis using p by simp
qed

text \<open>
  C4 (as amended). With the method Makkah the angle of the Isha solver is the literal 90
  of the table. The solver takes the sine of it, which is 1, so the cosine of the hour
  angle is \<open>-1 / (cos(lat) * cos(declination))\<close>; whenever the cosine of the latitude is
  below 1 in absolute value this exceeds 1 in absolute value, the fallback branch is taken
  and Isha is \<open>solarTime + 1.5\<close>, while Maghrib (with a nonzero denominator) is
  \<open>solarTime + 6\<close>: Isha comes 4.5 hours before Maghrib.
\<close>

theorem makkah_isha_takes_fallback:
  assumes "\<bar>cos (lat * pi / 180)\<bar> < 1"
    and "js_mul (Math_cos (toRadians (Fin lat))) (Math_cos (calculateDeclination (Fin s)))
           \<noteq> Fin 0"
  shows "ishaAngleOf ''Makkah'' = Fin 90 \<and>
         js_gt (js_abs (isha_cosAngle (Fin s) (Fin lat) (ishaAngleOf ''Makkah''))) (Fin 1) \<and>
         calculateIsha (Fin s) (Fin lat) (ishaAngleOf ''Makkah'') = Fin (s + 1.5) \<and>
         calculateMaghrib (Fin s) (Fin lat) = Fin (s + 6)"
proof -
  have "\<bar>cosProd s lat\<bar> < sin (90 * pi / 180)"
    using cosProd_le[of s lat] assms(1) by (simp only: sin_90_degrees)
  note fb = isha_fallback_Fin[OF this]
  from assms(2) have "cosProd s lat \<noteq> 0" by (simp add: denominator_Fin)
  then have "calculateMaghrib (Fin s) (Fin lat) = Fin (s + 6)" by (rule calculateMaghrib_Fin)
  then show ?thesis using fb by (simp add: ishaAngleOf_Makkah)
qed

theorem makkah_isha_takes_fallback_witness:
  "\<bar>cos (60 * pi / 180)\<bar> < (1::real) \<and>
   js_mul (Math_cos (toRadians (Fin 60))) (Math_cos (calculateDeclination (Fin (393 / 32))))
     \<noteq> Fin 0 \<and>
   calculateIsha (Fin (393 / 32)) (Fin 60) (ishaAngleOf ''Makkah'') = Fin (441 / 32) \<and>
   calculateMaghrib (Fin (393 / 32)) (Fin 60) = Fin (585 / 32)"
proof -
  have c: "\<bar>cos (60 * pi / 180)\<bar> < (1::real)" by (simp add: cos_60)
  have "cos (60 * pi / 180) * cos (declReal (393 / 32)) \<noteq> 0"
    using cos_declination_morning by (simp add: cos_60)
  then have nz: "js_mul (Math_cos (toRadians (Fin 60)))
      (Math_cos (calculateDeclination (Fin (393 / 32)))) \<noteq> Fin 0"
    by (simp add: denominator_Fin cosProd_def)
  show ?thesis
    using c nz makkah_isha_takes_fallback[OF c nz] by (simp add: ishaAngleOf_Makkah)
qed

text \<open>
  C4 as stated fails: at solar time 12.59375 and the latitude of Mecca, the Isha solver
  with the angle of the method Makkah returns 14.09375 and the Maghrib solver 18.59375.
\<close>

theorem makkah_isha_counterexample:
  "calculateIsha (Fin (403 / 32)) (Fin 21.4225) (ishaAngleOf ''Makkah'') = Fin (451 / 32) \<and>
   calculateMaghrib (Fin (403 / 32)) (Fin 21.4225) = Fin (595 / 32)"
proof -
  have "\<bar>cos (21.4225 * pi / 180)\<bar> < 1" by (rule cos_latitude_less_one) simp_all
  then have "\<bar>cosProd (403 / 32) 21.4225\<bar> < sin (90 * pi / 180)"
    using cosProd_le[of "403 / 32" "21.4225"] by (simp only: sin_90_degrees)
  then have i: "calculateIsha (Fin (403 / 32)) (Fin 21.4225) (Fin 90) = Fin (403 / 32 + 1.5)"
    by (rule isha_fallback_Fin)
  have "0 < cosProd (403 / 32) 21.4225" by (rule cosProd_noon_pos) simp
  then have "cosProd (403 / 32) 21.4225 \<noteq> 0" by simp
  then have m: "calculateMaghrib (Fin (403 / 32)) (Fin 21.4225) = Fin (403 / 32 + 6)"
    by (rule calculateMaghrib_Fin)
  show ?thesis using i m by (simp add: ishaAngleOf_Makkah)
qed

section \<open>The order of the six times\<close>



lemma js_gt_Fin_Fin: "js_gt (Fin a) (Fin b) = (b < a)"
  by simp







lemma fajrAngleOf_Makkah: "fajrAngleOf ''Makkah'' = Fin 18.5"
  by (simp add: fajrAngleOf_def methodParams_def js_or_def)


text \<open>
  When the engine knows the zone but cannot parse the string of the formatter, the offset is
  NaN, the solar time is NaN, and the six values are never increasing.
\<close>

lemma js_gt_NaN_left: "\<not> js_gt NaN x"
  by (cases x) simp_all

lemma calculateSolarTime_offset_NaN:
  "getTimezoneOffset h timezone = NaN \<Longrightarrow> calculateSolarTime h julianDate longitude timezone = NaN"
  by (simp add: calculateSolarTime_def Let_def js_add_NaN_right)

lemma offset_NaN_never_increasing:
  assumes "getTimezoneOffset h timezone = NaN"
  shows "\<not> strictlyIncreasing
             (calculatePrayerTimes h date latitude longitude timezone method madhab)"
proof (cases "getJulianDate date")
  case (Inl e)
  then show ?thesis
    by (simp add: calculatePrayerTimes_def calculatePrayerTimes_try_def bind_def Let_def
        zeroTimes_def strictlyIncreasing_def)
next
  case (Inr jd)
  then have "dhuhr (calculatePrayerTimes h date latitude longitude timezone method madhab) = NaN"
    by (simp add: calculatePrayerTimes_def calculatePrayerTimes_try_def bind_def Let_def
        calculateSolarTime_offset_NaN[OF assms] normalizeTimes_def solverTimes_def
        calculateDhuhr_def normalize_def)
  then show ?thesis by (simp add: strictlyIncreasing_def js_gt_NaN_left)
qed

lemma offset_known_zone: "getTimezoneOffset sampleEngine ''Asia/Kolkata'' = NaN"
  by (simp add: getTimezoneOffset_def sampleEngine_def zoneOffsetMinutes_def
      hourMinuteString_epoch engineParse_def parseDateTime_time_only js_sub_def)




lemma hour_angle_late:
  assumes "- 1 \<le> x" "x < 0"
  shows "6 < arccos x * 180 / pi / 15" and "arccos x * 180 / pi / 15 \<le> 12"
proof -
  have "arccos 0 < arccos x" using assms by (intro arccos_less_arccos) simp_all
  then have lo: "pi / 2 < arccos x" by simp
  have hi: "arccos x \<le> pi" using assms by (intro arccos_ubound) simp_all
  have ip: "0 < 12 / pi" by simp
  have e: "arccos x * 180 / pi / 15 = arccos x * (12 / pi)" by simp
  have "pi / 2 * (12 / pi) < arccos x * (12 / pi)"
    using lo ip by (rule mult_strict_right_mono)
  then show "6 < arccos x * 180 / pi / 15" unfolding e by simp
  have "arccos x * (12 / pi) \<le> pi * (12 / pi)"
    using hi ip by (intro mult_right_mono) simp_all
  then show "arccos x * 180 / pi / 15 \<le> 12" unfolding e by simp
qed


lemma calculateFajr_solution:
  assumes "fajr_cosAngle (Fin s) lat fa = Fin x" "\<bar>x\<bar> \<le> 1"
  shows "calculateFajr (Fin s) lat fa = Fin (s - arccos x * 180 / pi / 15)"
  using assms by (simp add: calculateFajr_def Let_def toDegrees_Fin js_sub_Fin)





lemma sin_18_degrees: "0 < sin (18 * pi / 180)" "sin (18 * pi / 180) \<le> 4 / 10"
proof -
  have r: "0 < 18 * pi / 180" "18 * pi / 180 < pi" by simp_all
  show "0 < sin (18 * pi / 180)" using r by (rule sin_gt_zero)
  have "sin (18 * pi / 180) \<le> 18 * pi / 180" by (rule sin_x_le_x) simp
  then show "sin (18 * pi / 180) \<le> 4 / 10" using pi_less_4 by linarith
qed










section \<open>The declination in the Fajr solver\<close>

lemma cosProd_morning_equator: "cosProd (393 / 32) 0 < 0"
  using cos_declination_morning by (simp add: cosProd_def)

lemma calculateFajr_morning_equator:
  "\<exists>f. calculateFajr (Fin (393 / 32)) (Fin 0) (Fin 18) = Fin f \<and> 393 / 32 - 6 < f"
proof -
  define c where "c = cosProd (393 / 32) 0"
  have c: "c < 0" unfolding c_def by (rule cosProd_morning_equator)
  define x where "x = - sin (18 * pi / 180) / c"
  have x0: "0 < x" unfolding x_def using sin_18_degrees(1) c by (simp add: field_simps)
  have cf: "fajr_cosAngle (Fin (393 / 32)) (Fin 0) (Fin 18) = Fin x"
    using c by (simp add: fajr_cosAngle_Fin x_def c_def)
  show ?thesis
  proof (cases "1 < x")
    case True
    then have "calculateFajr (Fin (393 / 32)) (Fin 0) (Fin 18) = Fin (393 / 32 - 1.5)"
      using x0 by (simp add: calculateFajr_def Let_def cf js_sub_Fin)
    moreover have "393 / 32 - 6 < (393 / 32 - 1.5 :: real)" by simp
    ultimately show ?thesis by blast
  next
    case False
    then have x1: "\<bar>x\<bar> \<le> 1" using x0 by simp
    have v: "calculateFajr (Fin (393 / 32)) (Fin 0) (Fin 18)
               = Fin (393 / 32 - arccos x * 180 / pi / 15)"
      using cf x1 by (rule calculateFajr_solution)
    have "arccos x < arccos 0" using x0 False by (intro arccos_less_arccos) simp_all
    then have hi: "arccos x < pi / 2" by simp
    have ip: "0 < 12 / pi" by simp
    have e: "arccos x * 180 / pi / 15 = arccos x * (12 / pi)" by simp
    have "arccos x * (12 / pi) < pi / 2 * (12 / pi)"
      using hi ip by (rule mult_strict_right_mono)
    then have "arccos x * 180 / pi / 15 < 6" unfolding e by simp
    then have "393 / 32 - 6 < 393 / 32 - arccos x * 180 / pi / 15" by linarith
    then show ?thesis using v by blast
  qed
qed

lemma calculateFajr_spec_morning_equator:
  "\<exists>g. calculateFajr_spec (Fin (393 / 32)) (Fin 0) (Fin 18) = Fin g \<and> g < 393 / 32 - 6"
proof -
  define d where "d = declReal (393 / 32)"
  define r where "r = d * pi / 180"
  have d: "285 / 100 \<le> d" "d < 9 / 2" unfolding d_def using declination_morning_range by simp_all
  have dp: "d * pi \<le> (9 / 2) * 4" using d pi_less_4 by (intro mult_mono) simp_all
  have dp0: "0 \<le> d * pi" using d by simp
  have r: "0 \<le> r" "r \<le> 1 / 10" unfolding r_def using dp dp0 by linarith+
  have "\<bar>r\<bar> * \<bar>r\<bar> \<le> (1 / 10) * (1 / 10)" using r by (intro mult_mono) simp_all
  then have "r\<^sup>2 \<le> 1 / 100" by (simp add: power2_eq_square)
  then have c: "7 / 8 \<le> cos r" using cos_lower[of r] by linarith
  define x where "x = - sin (18 * pi / 180) / cos r"
  have c0: "0 < cos r" using c by linarith
  have "sin (18 * pi / 180) \<le> 1 / 2 * cos r" using sin_18_degrees(2) c by linarith
  then have "sin (18 * pi / 180) / cos r \<le> 1 / 2" using c0 by (simp add: field_simps)
  then have xl: "- (1 / 2) \<le> x" unfolding x_def by simp
  have "0 < sin (18 * pi / 180) / cos r" using sin_18_degrees(1) c0 by simp
  then have xu: "x < 0" unfolding x_def by simp
  have dd: "calculateDeclination (Fin (393 / 32)) = Fin d"
    by (simp only: calculateDeclination_Fin d_def)
  have den: "js_mul (Math_cos (toRadians (Fin 0))) (Math_cos (toRadians (Fin d))) = Fin (cos r)"
    by (simp add: toRadians_Fin r_def)
  have num: "js_neg (Math_sin (toRadians (Fin 18))) = Fin (- sin (18 * pi / 180))"
    by (simp add: toRadians_Fin)
  have q: "js_div (Fin (- sin (18 * pi / 180))) (Fin (cos r)) = Fin x"
    using c0 by (simp add: x_def)
  have ab: "\<not> js_gt (js_abs (Fin x)) (Fin 1)" using xl xu by simp
  have ac: "Math_acos (Fin x) = Fin (arccos x)" using xl xu by simp
  have "calculateFajr_spec (Fin (393 / 32)) (Fin 0) (Fin 18)
          = js_sub (Fin (393 / 32)) (js_div (toDegrees (Fin (arccos x))) (Fin 15))"
    unfolding calculateFajr_spec_def Let_def by (simp only: dd den num q ab ac if_False)
  then have v: "calculateFajr_spec (Fin (393 / 32)) (Fin 0) (Fin 18)
                  = Fin (393 / 32 - arccos x * 180 / pi / 15)"
    by (simp add: toDegrees_Fin js_sub_Fin)
  have "- 1 \<le> x" using xl by linarith
  then have "6 < arccos x * 180 / pi / 15" using xu by (rule hour_angle_late(1))
  then have "393 / 32 - arccos x * 180 / pi / 15 < 393 / 32 - 6" by linarith
  then show ?thesis using v by blast
qed

text \<open>
  C6 fails on the code: \<open>calculateDeclination\<close> returns degrees and \<open>calculateFajr\<close> passes
  that number to \<open>Math.cos\<close> as it is. At solar time 12.28125, latitude 0 and angle 18 the
  declination is about 3.17 degrees; read as radians its cosine is negative, and the
  solver returns a Fajr time after its own sunrise (\<open>solarTime - 6\<close>), while the formula of
  the specification gives a time before it.
\<close>

theorem fajr_declination_not_converted:
  "calculateSunrise (Fin (393 / 32)) (Fin 0) = Fin (393 / 32 - 6) \<and>
   js_gt (calculateFajr (Fin (393 / 32)) (Fin 0) (Fin 18))
     (calculateSunrise (Fin (393 / 32)) (Fin 0)) \<and>
   js_gt (calculateSunrise (Fin (393 / 32)) (Fin 0))
     (calculateFajr_spec (Fin (393 / 32)) (Fin 0) (Fin 18))"
proof -
  obtain f where f: "calculateFajr (Fin (393 / 32)) (Fin 0) (Fin 18) = Fin f" "393 / 32 - 6 < f"
    using calculateFajr_morning_equator by (elim exE conjE)
  obtain g where g: "calculateFajr_spec (Fin (393 / 32)) (Fin 0) (Fin 18) = Fin g"
    "g < 393 / 32 - 6"
    using calculateFajr_spec_morning_equator by (elim exE conjE)
  have "cosProd (393 / 32) 0 \<noteq> 0" using cosProd_morning_equator by linarith
  then have s: "calculateSunrise (Fin (393 / 32)) (Fin 0) = Fin (393 / 32 - 6)"
    by (rule calculateSunrise_Fin)
  show ?thesis unfolding f(1) g(1) s using f(2) g(2) by simp
qed

end
